theory Spec2Isabelle
  imports Main "HOL-Library.Word" "HOL-Library.Sublist"
begin

unbundle bit_operations_syntax

section \<open>Subtitle downloader: orchestrator, fingerprint, extraction, providers\<close>

type_synonym byte = "8 word"
type_synonym bytes = "byte list"

subsection \<open>Fallback stages of the orchestrator (main.py, \<open>_do_search\<close> and \<open>_do_download_all\<close>)\<close>

text \<open>
  Both methods run the same three guarded statements on a local variable \<open>results\<close>
  that starts as the empty list. The provider calls are the only effects of interest, so the
  model threads a log of the calls made together with \<open>results\<close>. The outcome of each
  provider call is an argument: \<open>by_hash h\<close> is what
  \<open>self.opensubtitles.search(file_hash=h, ...)\<close> returns, \<open>by_query\<close> what the query
  search returns and \<open>by_video\<close> what \<open>self.subliminal.search_for_video\<close> returns. Each of
  those methods catches every exception itself and returns a list.
\<close>

datatype stage = HashSearch | QuerySearch | AggregatorSearch

text \<open>Python truthiness of \<open>file_hash\<close> (None or a string).\<close>

definition truthy_str :: "string option \<Rightarrow> bool" where
  "truthy_str s = (case s of None \<Rightarrow> False | Some v \<Rightarrow> v \<noteq> [])"

definition hash_stage ::
  "bool \<Rightarrow> string option \<Rightarrow> (string \<Rightarrow> 'r list) \<Rightarrow> stage list \<times> 'r list" where
  "hash_stage api_key file_hash by_hash =
     (case file_hash of
        Some h \<Rightarrow> if h \<noteq> [] \<and> api_key then ([HashSearch], by_hash h) else ([], [])
      | None \<Rightarrow> ([], []))"

definition query_stage :: "bool \<Rightarrow> 'r list \<Rightarrow> stage list \<times> 'r list \<Rightarrow> stage list \<times> 'r list" where
  "query_stage api_key by_query st =
     (if snd st = [] \<and> api_key then (fst st @ [QuerySearch], by_query) else st)"

definition fallback_stage :: "bool \<Rightarrow> 'r list \<Rightarrow> stage list \<times> 'r list \<Rightarrow> stage list \<times> 'r list" where
  "fallback_stage subliminal_available by_video st =
     (if snd st = [] \<and> subliminal_available then (fst st @ [AggregatorSearch], by_video) else st)"

definition search_stages ::
  "bool \<Rightarrow> bool \<Rightarrow> string option \<Rightarrow> (string \<Rightarrow> 'r list) \<Rightarrow> 'r list \<Rightarrow> 'r list
     \<Rightarrow> stage list \<times> 'r list" where
  "search_stages api_key subliminal_available file_hash by_hash by_query by_video =
     fallback_stage subliminal_available by_video
       (query_stage api_key by_query (hash_stage api_key file_hash by_hash))"

text \<open>What the hash stage leaves in \<open>results\<close>.\<close>

definition hash_results :: "bool \<Rightarrow> string option \<Rightarrow> (string \<Rightarrow> 'r list) \<Rightarrow> 'r list" where
  "hash_results api_key file_hash by_hash = snd (hash_stage api_key file_hash by_hash)"

definition query_results ::
  "bool \<Rightarrow> string option \<Rightarrow> (string \<Rightarrow> 'r list) \<Rightarrow> 'r list \<Rightarrow> 'r list" where
  "query_results api_key file_hash by_hash by_query =
     snd (query_stage api_key by_query (hash_stage api_key file_hash by_hash))"

subsection \<open>Fallback ordering\<close>

lemma hash_stage_trace:
  "fst (hash_stage k fh bh) = (if truthy_str fh \<and> k then [HashSearch] else [])"
  by (simp add: hash_stage_def truthy_str_def split: option.splits)

lemma query_stage_trace:
  "fst (query_stage k bq st) = fst st @ (if snd st = [] \<and> k then [QuerySearch] else [])"
  by (simp add: query_stage_def)

lemma fallback_stage_trace:
  "fst (fallback_stage s bv st) = fst st @ (if snd st = [] \<and> s then [AggregatorSearch] else [])"
  by (simp add: fallback_stage_def)

lemma search_stages_trace:
  "fst (search_stages k s fh bh bq bv) =
     (if truthy_str fh \<and> k then [HashSearch] else []) @
     (if hash_results k fh bh = [] \<and> k then [QuerySearch] else []) @
     (if query_results k fh bh bq = [] \<and> s then [AggregatorSearch] else [])"
  by (simp add: search_stages_def fallback_stage_trace query_stage_trace hash_stage_trace
      hash_results_def query_results_def)

lemma search_stages_results:
  "snd (search_stages k s fh bh bq bv) =
     (if query_results k fh bh bq = [] \<and> s then bv else query_results k fh bh bq)"
  by (simp add: search_stages_def fallback_stage_def query_results_def)

lemma hash_results_eq:
  "hash_results k fh bh = (case fh of None \<Rightarrow> [] | Some h \<Rightarrow> if h \<noteq> [] \<and> k then bh h else [])"
  by (simp add: hash_results_def hash_stage_def split: option.splits)

lemma hash_results_nonempty: "hash_results k fh bh \<noteq> [] \<Longrightarrow> truthy_str fh \<and> k"
  by (auto simp: hash_results_eq truthy_str_def split: option.splits if_splits)

lemma query_results_eq:
  "query_results k fh bh bq = (if hash_results k fh bh = [] \<and> k then bq else hash_results k fh bh)"
  by (cases k) (simp_all add: query_results_def query_stage_def hash_results_def)

lemma hash_results_no_key: "hash_results False fh bh = []"
  by (simp add: hash_results_eq split: option.splits)

lemma stage_order:
  "subseq ((if a then [HashSearch] else []) @ (if b then [QuerySearch] else []) @
           (if c then [AggregatorSearch] else [])) [HashSearch, QuerySearch, AggregatorSearch]"
  by (cases a; cases b; cases c) simp_all

text \<open>
  C1. The stages run in the fixed order hash, query, aggregator. The hash search is called
  exactly when a fingerprint is available and the API key is configured; the query search
  only after an empty hash stage (and with the key configured); the aggregator only after
  both earlier stages left the result list empty (and with the aggregator library present);
  a non-empty list at a stage ends the calls and is the final result.
\<close>

theorem fallback_ordering:
  "let run = search_stages k s fh bh bq bv; trace = fst run;
       after_hash = hash_results k fh bh; after_query = query_results k fh bh bq
   in subseq trace [HashSearch, QuerySearch, AggregatorSearch] \<and>
      (HashSearch \<in> set trace \<longleftrightarrow> truthy_str fh \<and> k) \<and>
      (QuerySearch \<in> set trace \<longleftrightarrow> k \<and> after_hash = []) \<and>
      (AggregatorSearch \<in> set trace \<longleftrightarrow> s \<and> after_hash = [] \<and> after_query = []) \<and>
      (after_hash \<noteq> [] \<longrightarrow> trace = [HashSearch] \<and> snd run = after_hash) \<and>
      (after_hash = [] \<and> after_query \<noteq> [] \<longrightarrow>
         trace = (if truthy_str fh then [HashSearch, QuerySearch] else [QuerySearch]) \<and>
         snd run = bq) \<and>
      (after_query = [] \<longrightarrow> snd run = (if s then bv else []))"
proof -
  let ?t = "fst (search_stages k s fh bh bq bv)"
  let ?r = "snd (search_stages k s fh bh bq bv)"
  let ?ah = "hash_results k fh bh"
  let ?aq = "query_results k fh bh bq"
  note tr = search_stages_trace [of k s fh bh bq bv]
  note rs = search_stages_results [of k s fh bh bq bv]
  note qr = query_results_eq [of k fh bh bq]
  have ne: "?ah \<noteq> [] \<Longrightarrow> truthy_str fh \<and> k"
    by (rule hash_results_nonempty)
  have 1: "subseq ?t [HashSearch, QuerySearch, AggregatorSearch]"
    unfolding tr by (rule stage_order)
  have 2: "HashSearch \<in> set ?t \<longleftrightarrow> truthy_str fh \<and> k"
    unfolding tr by simp
  have 3: "QuerySearch \<in> set ?t \<longleftrightarrow> k \<and> ?ah = []"
    unfolding tr by (cases k) (auto simp: hash_results_no_key)
  have 4: "AggregatorSearch \<in> set ?t \<longleftrightarrow> s \<and> ?ah = [] \<and> ?aq = []"
    unfolding tr using qr by (cases k) (auto simp: hash_results_no_key)
  have 5: "?ah \<noteq> [] \<longrightarrow> ?t = [HashSearch] \<and> ?r = ?ah"
    unfolding tr rs using ne qr by (cases k) (simp_all add: hash_results_no_key)
  have 6: "?ah = [] \<and> ?aq \<noteq> [] \<longrightarrow>
         ?t = (if truthy_str fh then [HashSearch, QuerySearch] else [QuerySearch]) \<and> ?r = bq"
    unfolding tr rs using qr by (cases k) (auto simp: hash_results_no_key)
  have 7: "?aq = [] \<longrightarrow> ?r = (if s then bv else [])"
    unfolding rs by simp
  from 1 2 3 4 5 6 7 show ?thesis
    unfolding Let_def by blast
qed

theorem fallback_ordering_witness:
  "fst (search_stages True True (Some ''00000000000203e8'') (\<lambda>h. []) [] [7::nat])
     = [HashSearch, QuerySearch, AggregatorSearch] \<and>
   fst (search_stages True True (Some ''00000000000203e8'') (\<lambda>h. [1::nat]) [2] [3]) = [HashSearch] \<and>
   snd (search_stages True True (Some ''00000000000203e8'') (\<lambda>h. [1::nat]) [2] [3]) = [1] \<and>
   fst (search_stages True True None (\<lambda>h. [1::nat]) [2] [3]) = [QuerySearch] \<and>
   snd (search_stages True True None (\<lambda>h. [1::nat]) [2] [3]) = [2]"
proof -
  let ?h = "Some ''00000000000203e8''"
  have h1: "hash_results True ?h (\<lambda>h. [1::nat]) = [1]"
    by (simp add: hash_results_eq)
  have h2: "hash_results True None (\<lambda>h. [1::nat]) = []"
    by (simp add: hash_results_eq)
  have h3: "query_results True None (\<lambda>h. [1::nat]) [2] = [2]"
    by (simp add: hash_results_eq query_results_eq)
  have h4: "hash_results True ?h (\<lambda>h. []::nat list) = []"
    by (simp add: hash_results_eq)
  have h5: "query_results True ?h (\<lambda>h. []) ([]::nat list) = []"
    by (simp add: hash_results_eq query_results_eq)
  have a: "fst (search_stages True True ?h (\<lambda>h. [1::nat]) [2] [3]) = [HashSearch] \<and>
           snd (search_stages True True ?h (\<lambda>h. [1::nat]) [2] [3]) = [1]"
    using fallback_ordering [of True True ?h "\<lambda>h. [1::nat]" "[2]" "[3]"]
    unfolding Let_def h1 by blast
  have b: "fst (search_stages True True None (\<lambda>h. [1::nat]) [2] [3]) = [QuerySearch] \<and>
           snd (search_stages True True None (\<lambda>h. [1::nat]) [2] [3]) = [2]"
    using fallback_ordering [of True True None "\<lambda>h. [1::nat]" "[2]" "[3]"]
    unfolding Let_def h2 h3 by (simp add: truthy_str_def)
  have c: "fst (search_stages True True ?h (\<lambda>h. []) [] [7::nat])
            = [HashSearch, QuerySearch, AggregatorSearch]"
    by (simp add: search_stages_trace h4 h5 truthy_str_def)
  from a b c show ?thesis by blast
qed

subsection \<open>Video fingerprint (main.py, \<open>get_file_hash\<close>)\<close>

text \<open>
  \<open>struct.unpack('<q', buffer)\<close>: a signed 64-bit little-endian integer; it raises
  \<open>struct.error\<close> unless the buffer holds exactly 8 bytes.
\<close>

primrec le_nat :: "bytes \<Rightarrow> nat" where
  "le_nat [] = 0"
| "le_nat (b # bs) = unat b + 256 * le_nat bs"

definition unpack_q :: "bytes \<Rightarrow> int option" where
  "unpack_q buffer =
     (if length buffer = 8 then Some (sint (word_of_nat (le_nat buffer) :: 64 word)) else None)"

text \<open>
  One \<open>for _ in range(n)\<close> loop of \<open>get_file_hash\<close> on an open file: \<open>f.read(bytesize)\<close>
  returns the (at most) 8 bytes at the file position and advances it, the word is added and
  the sum masked with \<open>0xFFFFFFFFFFFFFFFF\<close>. An exception leaves the function through
  its bare \<open>except\<close>, modelled as \<open>None\<close>.
\<close>

fun read_words :: "nat \<Rightarrow> bytes \<Rightarrow> nat \<Rightarrow> int \<Rightarrow> (int \<times> nat) option" where
  "read_words 0 data pos hash_val = Some (hash_val, pos)"
| "read_words (Suc n) data pos hash_val =
     (let buffer = take 8 (drop pos data) in
      case unpack_q buffer of
        None \<Rightarrow> None
      | Some l_value \<Rightarrow>
          read_words n data (pos + length buffer) ((hash_val + l_value) mod 2 ^ 64))"

text \<open>The format \<open>"%016x"\<close>: lowercase hexadecimal, zero-padded to width 16.\<close>

definition hex_char :: "nat \<Rightarrow> char" where
  "hex_char d = ''0123456789abcdef'' ! d"

function hex_digits :: "nat \<Rightarrow> string" where
  "hex_digits n = (if n < 16 then [hex_char n] else hex_digits (n div 16) @ [hex_char (n mod 16)])"
  by pat_completeness auto
termination
  by (relation "measure id") auto

declare hex_digits.simps [simp del]

definition format_016x :: "int \<Rightarrow> string" where
  "format_016x v =
     (let sign = (if v < 0 then ''-'' else ''''); digits = hex_digits (nat \<bar>v\<bar>)
      in sign @ replicate (16 - length sign - length digits) CHR ''0'' @ digits)"

text \<open>
  The file system is looked up by the caller: \<open>None\<close> when \<open>open\<close> or
  \<open>os.path.getsize\<close> raises, otherwise the file's bytes (its size is their number).
\<close>

definition get_file_hash :: "bytes option \<Rightarrow> string option" where
  "get_file_hash file =
     (case file of
        None \<Rightarrow> None
      | Some data \<Rightarrow>
          let bytesize = 8; filesize = length data; hash_val = int filesize in
          if filesize < 65536 * 2 then None
          else case read_words (65536 div bytesize) data 0 hash_val of
            None \<Rightarrow> None
          | Some (hash1, _) \<Rightarrow>
              (case read_words (65536 div bytesize) data (nat (max 0 (int filesize - 65536))) hash1 of
                 None \<Rightarrow> None
               | Some (hash2, _) \<Rightarrow> Some (format_016x hash2)))"

text \<open>
  The fingerprint as the specification words it: the file size plus the sum of the 8-byte
  little-endian words of the first and of the last 65536 bytes, modulo \<open>2 ^ 64\<close>.
\<close>

text \<open>The 8-byte little-endian word at a byte offset.\<close>

definition word_at :: "bytes \<Rightarrow> nat \<Rightarrow> nat" where
  "word_at data pos = le_nat (take 8 (drop pos data))"

definition block_sum :: "bytes \<Rightarrow> nat" where
  "block_sum blk = (\<Sum>i < length blk div 8. word_at blk (8 * i))"

definition fingerprint_spec :: "bytes \<Rightarrow> nat" where
  "fingerprint_spec data =
     (length data + block_sum (take 65536 data) + block_sum (drop (length data - 65536) data))
       mod 2 ^ 64"

text \<open>Reading a hexadecimal string back.\<close>

definition hex_val :: "char \<Rightarrow> nat" where
  "hex_val c = length (takeWhile (\<lambda>d. d \<noteq> c) ''0123456789abcdef'')"

definition hex_value :: "string \<Rightarrow> nat" where
  "hex_value s = foldl (\<lambda>acc c. 16 * acc + hex_val c) 0 s"

definition lower_hex :: "string \<Rightarrow> bool" where
  "lower_hex s = list_all (\<lambda>c. c \<in> set ''0123456789abcdef'') s"

subsection \<open>Fingerprint: the loop and the format\<close>

lemma sint_of_nat_mod:
  "sint (word_of_nat u :: 64 word) mod 2 ^ 64 = int u mod 2 ^ 64"
proof -
  have "sint (word_of_nat u :: 64 word) mod 2 ^ 64 = uint (word_of_nat u :: 64 word)"
    by (simp add: uint_sint take_bit_eq_mod)
  also have "\<dots> = int u mod 2 ^ 64"
    by (simp add: unsigned_of_nat take_bit_eq_mod of_nat_mod)
  finally show ?thesis .
qed

lemma unpack_q_full:
  "length buffer = 8 \<Longrightarrow>
     \<exists>l. unpack_q buffer = Some l \<and> l mod 2 ^ 64 = int (le_nat buffer) mod 2 ^ 64"
  using sint_of_nat_mod [of "le_nat buffer"] by (simp add: unpack_q_def)

lemma unpack_q_short: "length buffer \<noteq> 8 \<Longrightarrow> unpack_q buffer = None"
  by (simp add: unpack_q_def)

lemma read_words_total:
  "pos + 8 * n \<le> length data \<Longrightarrow>
     \<exists>h. read_words n data pos hash_val = Some (h, pos + 8 * n) \<and>
         h mod 2 ^ 64 = (hash_val + int (\<Sum>i<n. word_at data (pos + 8 * i))) mod 2 ^ 64 \<and>
         (0 < n \<longrightarrow> 0 \<le> h \<and> h < 2 ^ 64)"
proof (induction n arbitrary: pos hash_val)
  case 0
  then show ?case by simp
next
  case (Suc n)
  let ?buf = "take 8 (drop pos data)"
  have len: "length ?buf = 8" using Suc.prems by simp
  from unpack_q_full [OF len] obtain l where
    l: "unpack_q ?buf = Some l" "l mod 2 ^ 64 = int (word_at data pos) mod 2 ^ 64"
    by (auto simp: word_at_def)
  have shift: "(\<Sum>i<Suc n. word_at data (pos + 8 * i))
      = word_at data pos + (\<Sum>i<n. word_at data (pos + 8 + 8 * i))"
    by (simp only: sum.lessThan_Suc_shift) (simp add: add.assoc)
  let ?h1 = "(hash_val + l) mod 2 ^ 64"
  have "pos + 8 + 8 * n \<le> length data" using Suc.prems by simp
  from Suc.IH [OF this, of ?h1] obtain h where
    h: "read_words n data (pos + 8) ?h1 = Some (h, pos + 8 + 8 * n)"
       "h mod 2 ^ 64 = (?h1 + int (\<Sum>i<n. word_at data (pos + 8 + 8 * i))) mod 2 ^ 64"
       "0 < n \<longrightarrow> 0 \<le> h \<and> h < 2 ^ 64"
    by blast
  have run: "read_words (Suc n) data pos hash_val = Some (h, pos + 8 * Suc n)"
    using l(1) h(1) len by (simp add: Let_def add.assoc)
  have "?h1 mod 2 ^ 64 = (hash_val + int (word_at data pos)) mod 2 ^ 64"
    using l(2) by (metis mod_add_right_eq mod_mod_trivial)
  then have "(?h1 + int (\<Sum>i<n. word_at data (pos + 8 + 8 * i))) mod 2 ^ 64
      = (hash_val + int (word_at data pos) + int (\<Sum>i<n. word_at data (pos + 8 + 8 * i))) mod 2 ^ 64"
    by (metis mod_add_left_eq)
  also have "\<dots> = (hash_val + int (\<Sum>i<Suc n. word_at data (pos + 8 * i))) mod 2 ^ 64"
    using shift by (simp add: add.assoc)
  finally have val: "h mod 2 ^ 64 = (hash_val + int (\<Sum>i<Suc n. word_at data (pos + 8 * i))) mod 2 ^ 64"
    using h(2) by simp
  have bounds: "0 \<le> h \<and> h < 2 ^ 64"
  proof (cases n)
    case 0
    with h(1) have "h = ?h1" by simp
    then show ?thesis by simp
  next
    case (Suc m)
    with h(3) show ?thesis by simp
  qed
  from run val bounds show ?case by blast
qed

lemma hex_char_lower: "d < 16 \<Longrightarrow> hex_char d \<in> set ''0123456789abcdef''"
  unfolding hex_char_def by (rule nth_mem) simp

lemma hex_digits_length: "0 < k \<Longrightarrow> n < 16 ^ k \<Longrightarrow> length (hex_digits n) \<le> k"
proof (induction n arbitrary: k rule: hex_digits.induct)
  case (1 n)
  show ?case
  proof (cases "n < 16")
    case True
    with "1.prems" show ?thesis by (subst hex_digits.simps) simp
  next
    case False
    from "1.prems" False obtain j where k: "k = Suc j" by (cases k) auto
    have "0 < j" using False "1.prems" k by (cases j) auto
    moreover have "n div 16 < 16 ^ j" using "1.prems" k
      by (simp add: less_mult_imp_div_less mult.commute)
    ultimately have "length (hex_digits (n div 16)) \<le> j"
      using "1.IH" False by blast
    with False k show ?thesis by (subst hex_digits.simps) simp
  qed
qed

lemma hex_digits_lower: "lower_hex (hex_digits n)"
proof (induction n rule: hex_digits.induct)
  case (1 n)
  show ?case
  proof (cases "n < 16")
    case True
    then show ?thesis
      using hex_char_lower [of n] by (subst hex_digits.simps) (simp add: lower_hex_def)
  next
    case False
    have "lower_hex (hex_digits (n div 16))" using "1.IH" False by blast
    moreover have "hex_char (n mod 16) \<in> set ''0123456789abcdef''"
      by (rule hex_char_lower) simp
    ultimately show ?thesis using False
      by (subst hex_digits.simps) (simp add: lower_hex_def)
  qed
qed

lemma hex_val_char: "d < 16 \<Longrightarrow> hex_val (hex_char d) = d"
proof -
  assume "d < 16"
  then consider "d = 0" | "d = 1" | "d = 2" | "d = 3" | "d = 4" | "d = 5" | "d = 6" | "d = 7"
    | "d = 8" | "d = 9" | "d = 10" | "d = 11" | "d = 12" | "d = 13" | "d = 14" | "d = 15"
    by atomize_elim arith
  then show ?thesis
    by cases (simp_all add: hex_val_def hex_char_def)
qed

lemma hex_value_snoc: "hex_value (s @ [c]) = 16 * hex_value s + hex_val c"
  by (simp add: hex_value_def)

lemma hex_value_digits: "hex_value (hex_digits n) = n"
proof (induction n rule: hex_digits.induct)
  case (1 n)
  show ?case
  proof (cases "n < 16")
    case True
    then show ?thesis
      by (subst hex_digits.simps) (simp add: hex_value_def hex_val_char)
  next
    case False
    have "hex_value (hex_digits (n div 16)) = n div 16" using "1.IH" False by blast
    then show ?thesis using False
      by (subst hex_digits.simps) (simp add: hex_value_snoc hex_val_char)
  qed
qed

lemma hex_value_zeros: "hex_value (replicate k CHR ''0'' @ s) = hex_value s"
proof -
  have "foldl (\<lambda>acc c. 16 * acc + hex_val c) 0 (replicate k CHR ''0'') = 0"
    by (induction k) (simp_all add: hex_val_def)
  then show ?thesis by (simp add: hex_value_def)
qed

lemma lower_hex_append: "lower_hex (a @ b) \<longleftrightarrow> lower_hex a \<and> lower_hex b"
  unfolding lower_hex_def by (rule list_all_append)

lemma lower_hex_zeros: "lower_hex (replicate k CHR ''0'')"
  unfolding lower_hex_def by (induction k) simp_all

lemma format_016x_props:
  assumes "0 \<le> v" "v < 2 ^ 64"
  shows "length (format_016x v) = 16" "lower_hex (format_016x v)" "int (hex_value (format_016x v)) = v"
proof -
  have p: "(16::nat) ^ 16 = 18446744073709551616" by simp
  have "v < 18446744073709551616" using assms(2) by simp
  with assms(1) have "nat v < 18446744073709551616" by linarith
  then have "nat v < 16 ^ 16" by (simp only: p)
  then have len: "length (hex_digits (nat v)) \<le> 16"
    by (intro hex_digits_length) simp_all
  have fmt: "format_016x v = replicate (16 - length (hex_digits (nat v))) CHR ''0'' @ hex_digits (nat v)"
  proof -
    have "\<not> v < 0" "\<bar>v\<bar> = v" using assms(1) by simp_all
    then show ?thesis unfolding format_016x_def Let_def by simp
  qed
  show "length (format_016x v) = 16" using len by (simp add: fmt)
  show "lower_hex (format_016x v)"
    unfolding fmt lower_hex_append using hex_digits_lower [of "nat v"] lower_hex_zeros by blast
  show "int (hex_value (format_016x v)) = v"
    using assms(1) by (simp add: fmt hex_value_zeros hex_value_digits)
qed

lemma block_sum_first:
  assumes "65536 \<le> length data"
  shows "block_sum (take 65536 data) = (\<Sum>i<8192. word_at data (0 + 8 * i))"
proof -
  have len: "length (take 65536 data) div 8 = 8192" using assms by simp
  have "word_at (take 65536 data) (8 * i) = word_at data (8 * i)" if "i < 8192" for i
  proof -
    have "take 8 (drop (8 * i) (take 65536 data)) = take 8 (drop (8 * i) data)"
      using that by (simp add: drop_take min_def)
    then show ?thesis by (simp add: word_at_def)
  qed
  then show ?thesis unfolding block_sum_def len by simp
qed

lemma block_sum_last:
  assumes "65536 \<le> length data"
  shows "block_sum (drop (length data - 65536) data)
           = (\<Sum>i<8192. word_at data (length data - 65536 + 8 * i))"
proof -
  have len: "length (drop (length data - 65536) data) div 8 = 8192" using assms by simp
  show ?thesis unfolding block_sum_def len
    by (simp add: word_at_def add.commute)
qed

lemma get_file_hash_small: "length data < 131072 \<Longrightarrow> get_file_hash (Some data) = None"
  by (simp add: get_file_hash_def)

lemma get_file_hash_large:
  assumes big: "131072 \<le> length data"
  shows "get_file_hash (Some data) = Some (format_016x (int (fingerprint_spec data)))"
proof -
  let ?n = "length data"
  have e: "(65536::nat) div 8 = 8192" by simp
  have p1: "0 + 8 * 8192 \<le> ?n" using big by simp
  from read_words_total [OF p1, of "int ?n"] obtain h1 where
    h1: "read_words 8192 data 0 (int ?n) = Some (h1, 0 + 8 * 8192)"
        "h1 mod 2 ^ 64 = (int ?n + int (\<Sum>i<8192. word_at data (0 + 8 * i))) mod 2 ^ 64"
    by blast
  have p2: "(?n - 65536) + 8 * 8192 \<le> ?n" using big by simp
  from read_words_total [OF p2, of h1] obtain h2 where
    h2: "read_words 8192 data (?n - 65536) h1 = Some (h2, (?n - 65536) + 8 * 8192)"
        "h2 mod 2 ^ 64 = (h1 + int (\<Sum>i<8192. word_at data (?n - 65536 + 8 * i))) mod 2 ^ 64"
        "0 \<le> h2 \<and> h2 < 2 ^ 64"
    by auto
  have seek: "nat (max 0 (int ?n - 65536)) = ?n - 65536" using big by simp
  have seek': "nat (int ?n - 65536) = ?n - 65536" using big by simp
  have big': "65536 \<le> ?n" using big by simp
  have "h2 = h2 mod 2 ^ 64" using h2(3) by simp
  also have "\<dots> = (h1 mod 2 ^ 64 + int (\<Sum>i<8192. word_at data (?n - 65536 + 8 * i))) mod 2 ^ 64"
    unfolding h2(2) by (simp add: mod_add_left_eq)
  also have "\<dots> = (int ?n + int (block_sum (take 65536 data))
                     + int (block_sum (drop (?n - 65536) data))) mod 2 ^ 64"
    unfolding h1(2) block_sum_first [OF big'] block_sum_last [OF big']
    by (simp add: mod_add_left_eq)
  also have "\<dots> = int (fingerprint_spec data)"
    unfolding fingerprint_spec_def by (simp add: of_nat_mod)
  finally have val: "h2 = int (fingerprint_spec data)" .
  have "get_file_hash (Some data) = Some (format_016x h2)"
    unfolding get_file_hash_def Let_def e seek
    using big h1(1) h2(1) by (simp add: seek')
  with val show ?thesis by simp
qed

lemma le_nat_zeros: "le_nat (replicate k 0) = 0"
  by (induction k) simp_all

lemma block_sum_zeros: "block_sum (replicate m 0) = 0"
  by (simp add: block_sum_def word_at_def le_nat_zeros)

lemma fingerprint_spec_zeros: "fingerprint_spec (replicate 131072 0) = 131072"
  by (simp add: fingerprint_spec_def block_sum_zeros)

lemma format_016x_example: "format_016x 131072 = ''0000000000020000''"
proof -
  have d: "hex_digits 131072 = ''20000''"
    by (simp add: hex_digits.simps hex_char_def)
  have r: "replicate 11 CHR ''0'' = ''00000000000''"
    by code_simp
  show ?thesis
    by (simp add: format_016x_def d r)
qed

text \<open>
  C2. On a readable file of at least 131072 bytes \<open>get_file_hash\<close> returns the
  16-digit lowercase hexadecimal string of (file size + sum of the 8-byte little-endian words
  of the first 65536 bytes and of the last 65536 bytes) modulo \<open>2 ^ 64\<close>; on a smaller
  file it returns None. As a function of the file's bytes it gives the same result on every
  call.
\<close>

theorem get_file_hash_fingerprint:
  "(131072 \<le> length data \<longrightarrow>
      get_file_hash (Some data) = Some (format_016x (int (fingerprint_spec data))) \<and>
      length (format_016x (int (fingerprint_spec data))) = 16 \<and>
      lower_hex (format_016x (int (fingerprint_spec data))) \<and>
      hex_value (format_016x (int (fingerprint_spec data))) = fingerprint_spec data) \<and>
   (length data < 131072 \<longrightarrow> get_file_hash (Some data) = None)"
proof -
  have "fingerprint_spec data < 2 ^ 64"
    unfolding fingerprint_spec_def by simp
  then have b: "0 \<le> int (fingerprint_spec data)" "int (fingerprint_spec data) < 2 ^ 64"
    by (simp_all add: of_nat_less_iff [of _ "2 ^ 64", simplified])
  have "int (hex_value (format_016x (int (fingerprint_spec data)))) = int (fingerprint_spec data)"
    by (rule format_016x_props(3) [OF b])
  then have "hex_value (format_016x (int (fingerprint_spec data))) = fingerprint_spec data"
    by (simp only: of_nat_eq_iff)
  with format_016x_props(1,2) [OF b] get_file_hash_large [of data] get_file_hash_small [of data]
  show ?thesis by blast
qed

theorem get_file_hash_fingerprint_witness:
  "get_file_hash (Some (replicate 131072 0)) = Some ''0000000000020000'' \<and>
   length ''0000000000020000'' = 16 \<and>
   hex_value ''0000000000020000'' = 131072 \<and>
   get_file_hash (Some (replicate 131071 0)) = None"
  using get_file_hash_fingerprint [of "replicate 131072 0"]
    get_file_hash_fingerprint [of "replicate 131071 0"]
  by (simp add: fingerprint_spec_zeros format_016x_example)

subsection \<open>Archive-aware extraction (main.py, \<open>_extract_subtitle_content\<close>)\<close>

text \<open>
  The method uses three operations of Python's \<open>zipfile\<close> library, which is not part of
  the repository: the constructor \<open>zipfile.ZipFile(io.BytesIO(content))\<close>, \<open>namelist()\<close>
  and \<open>read(name)\<close>. The library is a parameter of the model: \<open>ZipFile content\<close> is
  \<open>None\<close> when the constructor raises, otherwise the opened archive. An archive is the list
  of its members in archive order, each with its name and with the bytes the library gets
  when it decodes the member (\<open>None\<close> when it cannot, as for an encrypted member read without
  a password). \<open>namelist()\<close> gives the names in archive order. \<open>read(name)\<close> goes through
  the library's table of names, in which a later member replaces an earlier one of the same
  name; it raises for a name that is not in the table and for a member it cannot decode.
  Every exception inside the \<open>try\<close> block is swallowed by the bare \<open>except: pass\<close>, after
  which the method returns \<open>content\<close>.
\<close>

type_synonym zip_file = "(string \<times> bytes option) list"

type_synonym zip_library = "bytes \<Rightarrow> zip_file option"

definition namelist :: "zip_file \<Rightarrow> string list" where
  "namelist zf = map fst zf"

definition read :: "zip_file \<Rightarrow> string \<Rightarrow> bytes option" where
  "read zf name =
     (let named = filter (\<lambda>m. fst m = name) zf
      in if named = [] then None else snd (last named))"

definition zip_signature :: bytes where
  "zip_signature = [0x50, 0x4B, 0x03, 0x04]"

definition endswith :: "string \<Rightarrow> string \<Rightarrow> bool" where
  "endswith name ext = suffix ext name"

text \<open>The \<open>for name in zf.namelist()\<close> loop: the first name that ends in \<open>.srt\<close>.\<close>

fun first_srt :: "string list \<Rightarrow> string option" where
  "first_srt [] = None"
| "first_srt (name # names) = (if endswith name ''.srt'' then Some name else first_srt names)"

definition extract_subtitle_content :: "zip_library \<Rightarrow> bytes \<Rightarrow> bytes" where
  "extract_subtitle_content ZipFile content =
     (if take 4 content = zip_signature then
        (case ZipFile content of
           None \<Rightarrow> content
         | Some zf \<Rightarrow>
             (case first_srt (namelist zf) of
                Some name \<Rightarrow> (case read zf name of Some member \<Rightarrow> member | None \<Rightarrow> content)
              | None \<Rightarrow>
                  (case namelist zf of
                     [] \<Rightarrow> content
                   | name # _ \<Rightarrow>
                       (case read zf name of Some member \<Rightarrow> member | None \<Rightarrow> content))))
      else content)"

text \<open>
  Sample inputs. The archives are the bytes \<open>zipfile\<close> writes for stored members (the two
  encrypted members carry the traditional ZIP encryption with a password):
  \<^item> \<open>one_srt_bytes\<close>: members \<open>readme.txt\<close> and \<open>movie.srt\<close>;
  \<^item> \<open>no_srt_bytes\<close>: members \<open>movie.sub\<close> and \<open>notes.txt\<close>;
  \<^item> \<open>stub_archive_bytes\<close>: the two bytes \<open>MZ\<close> followed by an archive with the one member
    \<open>movie.srt\<close> (the library finds an archive from the end-of-central-directory record at
    the end of the data and accepts bytes in front of it, as in a self-extracting archive);
  \<^item> \<open>encrypted_srt_bytes\<close>: one member \<open>movie.srt\<close>, encrypted;
  \<^item> \<open>encrypted_first_bytes\<close>: members \<open>movie.sub\<close>, encrypted, and \<open>notes.txt\<close>;
  \<^item> \<open>repeated_name_bytes\<close>: two members named \<open>a.txt\<close>, with contents \<open>x\<close> and \<open>y\<close>;
  \<^item> \<open>no_member_bytes\<close>: a local file entry followed by an empty central directory;
  \<^item> \<open>truncated_bytes\<close>: the signature and one more byte, which is no archive.
\<close>

definition srt_payload :: bytes where
  "srt_payload = [0x31, 0x0A]"

definition sub_payload :: bytes where
  "sub_payload = [0x7B, 0x31, 0x7D]"

definition truncated_bytes :: bytes where
  "truncated_bytes = zip_signature @ [0x03]"

definition one_srt_bytes :: bytes where
  "one_srt_bytes =
    [0x50, 0x4B, 0x03, 0x04, 0x14, 0x00, 0x00, 0x00, 0x00, 0x00, 0x00, 0x00, 0x21, 0x58, 0xAC,
     0x2A, 0x93, 0xD8, 0x02, 0x00, 0x00, 0x00, 0x02, 0x00, 0x00, 0x00, 0x0A, 0x00, 0x00, 0x00,
     0x72, 0x65, 0x61, 0x64, 0x6D, 0x65, 0x2E, 0x74, 0x78, 0x74, 0x68, 0x69, 0x50, 0x4B, 0x03,
     0x04, 0x14, 0x00, 0x00, 0x00, 0x00, 0x00, 0x00, 0x00, 0x21, 0x58, 0x53, 0xFC, 0x51, 0x67,
     0x02, 0x00, 0x00, 0x00, 0x02, 0x00, 0x00, 0x00, 0x09, 0x00, 0x00, 0x00, 0x6D, 0x6F, 0x76,
     0x69, 0x65, 0x2E, 0x73, 0x72, 0x74, 0x31, 0x0A, 0x50, 0x4B, 0x01, 0x02, 0x14, 0x00, 0x14,
     0x00, 0x00, 0x00, 0x00, 0x00, 0x00, 0x00, 0x21, 0x58, 0xAC, 0x2A, 0x93, 0xD8, 0x02, 0x00,
     0x00, 0x00, 0x02, 0x00, 0x00, 0x00, 0x0A, 0x00, 0x00, 0x00, 0x00, 0x00, 0x00, 0x00, 0x00,
     0x00, 0x00, 0x00, 0x80, 0x01, 0x00, 0x00, 0x00, 0x00, 0x72, 0x65, 0x61, 0x64, 0x6D, 0x65,
     0x2E, 0x74, 0x78, 0x74, 0x50, 0x4B, 0x01, 0x02, 0x14, 0x00, 0x14, 0x00, 0x00, 0x00, 0x00,
     0x00, 0x00, 0x00, 0x21, 0x58, 0x53, 0xFC, 0x51, 0x67, 0x02, 0x00, 0x00, 0x00, 0x02, 0x00,
     0x00, 0x00, 0x09, 0x00, 0x00, 0x00, 0x00, 0x00, 0x00, 0x00, 0x00, 0x00, 0x00, 0x00, 0x80,
     0x01, 0x2A, 0x00, 0x00, 0x00, 0x6D, 0x6F, 0x76, 0x69, 0x65, 0x2E, 0x73, 0x72, 0x74, 0x50,
     0x4B, 0x05, 0x06, 0x00, 0x00, 0x00, 0x00, 0x02, 0x00, 0x02, 0x00, 0x6F, 0x00, 0x00, 0x00,
     0x53, 0x00, 0x00, 0x00, 0x00, 0x00]"

definition no_srt_bytes :: bytes where
  "no_srt_bytes =
    [0x50, 0x4B, 0x03, 0x04, 0x14, 0x00, 0x00, 0x00, 0x00, 0x00, 0x00, 0x00, 0x21, 0x58, 0x90,
     0x54, 0x0C, 0x4F, 0x03, 0x00, 0x00, 0x00, 0x03, 0x00, 0x00, 0x00, 0x09, 0x00, 0x00, 0x00,
     0x6D, 0x6F, 0x76, 0x69, 0x65, 0x2E, 0x73, 0x75, 0x62, 0x7B, 0x31, 0x7D, 0x50, 0x4B, 0x03,
     0x04, 0x14, 0x00, 0x00, 0x00, 0x00, 0x00, 0x00, 0x00, 0x21, 0x58, 0xAC, 0x2A, 0x93, 0xD8,
     0x02, 0x00, 0x00, 0x00, 0x02, 0x00, 0x00, 0x00, 0x09, 0x00, 0x00, 0x00, 0x6E, 0x6F, 0x74,
     0x65, 0x73, 0x2E, 0x74, 0x78, 0x74, 0x68, 0x69, 0x50, 0x4B, 0x01, 0x02, 0x14, 0x00, 0x14,
     0x00, 0x00, 0x00, 0x00, 0x00, 0x00, 0x00, 0x21, 0x58, 0x90, 0x54, 0x0C, 0x4F, 0x03, 0x00,
     0x00, 0x00, 0x03, 0x00, 0x00, 0x00, 0x09, 0x00, 0x00, 0x00, 0x00, 0x00, 0x00, 0x00, 0x00,
     0x00, 0x00, 0x00, 0x80, 0x01, 0x00, 0x00, 0x00, 0x00, 0x6D, 0x6F, 0x76, 0x69, 0x65, 0x2E,
     0x73, 0x75, 0x62, 0x50, 0x4B, 0x01, 0x02, 0x14, 0x00, 0x14, 0x00, 0x00, 0x00, 0x00, 0x00,
     0x00, 0x00, 0x21, 0x58, 0xAC, 0x2A, 0x93, 0xD8, 0x02, 0x00, 0x00, 0x00, 0x02, 0x00, 0x00,
     0x00, 0x09, 0x00, 0x00, 0x00, 0x00, 0x00, 0x00, 0x00, 0x00, 0x00, 0x00, 0x00, 0x80, 0x01,
     0x2A, 0x00, 0x00, 0x00, 0x6E, 0x6F, 0x74, 0x65, 0x73, 0x2E, 0x74, 0x78, 0x74, 0x50, 0x4B,
     0x05, 0x06, 0x00, 0x00, 0x00, 0x00, 0x02, 0x00, 0x02, 0x00, 0x6E, 0x00, 0x00, 0x00, 0x53,
     0x00, 0x00, 0x00, 0x00, 0x00]"

definition stub_archive_bytes :: bytes where
  "stub_archive_bytes =
    [0x4D, 0x5A, 0x50, 0x4B, 0x03, 0x04, 0x14, 0x00, 0x00, 0x00, 0x00, 0x00, 0x00, 0x00, 0x21,
     0x58, 0x53, 0xFC, 0x51, 0x67, 0x02, 0x00, 0x00, 0x00, 0x02, 0x00, 0x00, 0x00, 0x09, 0x00,
     0x00, 0x00, 0x6D, 0x6F, 0x76, 0x69, 0x65, 0x2E, 0x73, 0x72, 0x74, 0x31, 0x0A, 0x50, 0x4B,
     0x01, 0x02, 0x14, 0x00, 0x14, 0x00, 0x00, 0x00, 0x00, 0x00, 0x00, 0x00, 0x21, 0x58, 0x53,
     0xFC, 0x51, 0x67, 0x02, 0x00, 0x00, 0x00, 0x02, 0x00, 0x00, 0x00, 0x09, 0x00, 0x00, 0x00,
     0x00, 0x00, 0x00, 0x00, 0x00, 0x00, 0x00, 0x00, 0x80, 0x01, 0x00, 0x00, 0x00, 0x00, 0x6D,
     0x6F, 0x76, 0x69, 0x65, 0x2E, 0x73, 0x72, 0x74, 0x50, 0x4B, 0x05, 0x06, 0x00, 0x00, 0x00,
     0x00, 0x01, 0x00, 0x01, 0x00, 0x37, 0x00, 0x00, 0x00, 0x29, 0x00, 0x00, 0x00, 0x00, 0x00]"

definition encrypted_srt_bytes :: bytes where
  "encrypted_srt_bytes =
    [0x50, 0x4B, 0x03, 0x04, 0x14, 0x00, 0x01, 0x00, 0x00, 0x00, 0x00, 0x00, 0x21, 0x58, 0x53,
     0xFC, 0x51, 0x67, 0x0E, 0x00, 0x00, 0x00, 0x02, 0x00, 0x00, 0x00, 0x09, 0x00, 0x00, 0x00,
     0x6D, 0x6F, 0x76, 0x69, 0x65, 0x2E, 0x73, 0x72, 0x74, 0xD9, 0x57, 0x34, 0x1E, 0x5A, 0xF5,
     0x7C, 0xFF, 0xEE, 0xCF, 0x6D, 0xA2, 0xD3, 0xF4, 0x50, 0x4B, 0x01, 0x02, 0x14, 0x00, 0x14,
     0x00, 0x01, 0x00, 0x00, 0x00, 0x00, 0x00, 0x21, 0x58, 0x53, 0xFC, 0x51, 0x67, 0x0E, 0x00,
     0x00, 0x00, 0x02, 0x00, 0x00, 0x00, 0x09, 0x00, 0x00, 0x00, 0x00, 0x00, 0x00, 0x00, 0x00,
     0x00, 0x00, 0x00, 0x00, 0x00, 0x00, 0x00, 0x00, 0x00, 0x6D, 0x6F, 0x76, 0x69, 0x65, 0x2E,
     0x73, 0x72, 0x74, 0x50, 0x4B, 0x05, 0x06, 0x00, 0x00, 0x00, 0x00, 0x01, 0x00, 0x01, 0x00,
     0x37, 0x00, 0x00, 0x00, 0x35, 0x00, 0x00, 0x00, 0x00, 0x00]"

definition encrypted_first_bytes :: bytes where
  "encrypted_first_bytes =
    [0x50, 0x4B, 0x03, 0x04, 0x14, 0x00, 0x01, 0x00, 0x00, 0x00, 0x00, 0x00, 0x21, 0x58, 0x90,
     0x54, 0x0C, 0x4F, 0x0F, 0x00, 0x00, 0x00, 0x03, 0x00, 0x00, 0x00, 0x09, 0x00, 0x00, 0x00,
     0x6D, 0x6F, 0x76, 0x69, 0x65, 0x2E, 0x73, 0x75, 0x62, 0xD9, 0x57, 0x34, 0x1E, 0x5A, 0xF5,
     0x7C, 0xFF, 0xEE, 0xCF, 0x6D, 0x8A, 0x12, 0x81, 0xDD, 0x50, 0x4B, 0x03, 0x04, 0x14, 0x00,
     0x00, 0x00, 0x00, 0x00, 0x00, 0x00, 0x21, 0x58, 0xAC, 0x2A, 0x93, 0xD8, 0x02, 0x00, 0x00,
     0x00, 0x02, 0x00, 0x00, 0x00, 0x09, 0x00, 0x00, 0x00, 0x6E, 0x6F, 0x74, 0x65, 0x73, 0x2E,
     0x74, 0x78, 0x74, 0x68, 0x69, 0x50, 0x4B, 0x01, 0x02, 0x14, 0x00, 0x14, 0x00, 0x01, 0x00,
     0x00, 0x00, 0x00, 0x00, 0x21, 0x58, 0x90, 0x54, 0x0C, 0x4F, 0x0F, 0x00, 0x00, 0x00, 0x03,
     0x00, 0x00, 0x00, 0x09, 0x00, 0x00, 0x00, 0x00, 0x00, 0x00, 0x00, 0x00, 0x00, 0x00, 0x00,
     0x00, 0x00, 0x00, 0x00, 0x00, 0x00, 0x6D, 0x6F, 0x76, 0x69, 0x65, 0x2E, 0x73, 0x75, 0x62,
     0x50, 0x4B, 0x01, 0x02, 0x14, 0x00, 0x14, 0x00, 0x00, 0x00, 0x00, 0x00, 0x00, 0x00, 0x21,
     0x58, 0xAC, 0x2A, 0x93, 0xD8, 0x02, 0x00, 0x00, 0x00, 0x02, 0x00, 0x00, 0x00, 0x09, 0x00,
     0x00, 0x00, 0x00, 0x00, 0x00, 0x00, 0x00, 0x00, 0x00, 0x00, 0x00, 0x00, 0x36, 0x00, 0x00,
     0x00, 0x6E, 0x6F, 0x74, 0x65, 0x73, 0x2E, 0x74, 0x78, 0x74, 0x50, 0x4B, 0x05, 0x06, 0x00,
     0x00, 0x00, 0x00, 0x02, 0x00, 0x02, 0x00, 0x6E, 0x00, 0x00, 0x00, 0x5F, 0x00, 0x00, 0x00,
     0x00, 0x00]"

definition repeated_name_bytes :: bytes where
  "repeated_name_bytes =
    [0x50, 0x4B, 0x03, 0x04, 0x14, 0x00, 0x00, 0x00, 0x00, 0x00, 0x00, 0x00, 0x21, 0x58, 0x83,
     0x16, 0xDC, 0x8C, 0x01, 0x00, 0x00, 0x00, 0x01, 0x00, 0x00, 0x00, 0x05, 0x00, 0x00, 0x00,
     0x61, 0x2E, 0x74, 0x78, 0x74, 0x78, 0x50, 0x4B, 0x03, 0x04, 0x14, 0x00, 0x00, 0x00, 0x00,
     0x00, 0x00, 0x00, 0x21, 0x58, 0x15, 0x26, 0xDB, 0xFB, 0x01, 0x00, 0x00, 0x00, 0x01, 0x00,
     0x00, 0x00, 0x05, 0x00, 0x00, 0x00, 0x61, 0x2E, 0x74, 0x78, 0x74, 0x79, 0x50, 0x4B, 0x01,
     0x02, 0x14, 0x00, 0x14, 0x00, 0x00, 0x00, 0x00, 0x00, 0x00, 0x00, 0x21, 0x58, 0x83, 0x16,
     0xDC, 0x8C, 0x01, 0x00, 0x00, 0x00, 0x01, 0x00, 0x00, 0x00, 0x05, 0x00, 0x00, 0x00, 0x00,
     0x00, 0x00, 0x00, 0x00, 0x00, 0x00, 0x00, 0x80, 0x01, 0x00, 0x00, 0x00, 0x00, 0x61, 0x2E,
     0x74, 0x78, 0x74, 0x50, 0x4B, 0x01, 0x02, 0x14, 0x00, 0x14, 0x00, 0x00, 0x00, 0x00, 0x00,
     0x00, 0x00, 0x21, 0x58, 0x15, 0x26, 0xDB, 0xFB, 0x01, 0x00, 0x00, 0x00, 0x01, 0x00, 0x00,
     0x00, 0x05, 0x00, 0x00, 0x00, 0x00, 0x00, 0x00, 0x00, 0x00, 0x00, 0x00, 0x00, 0x80, 0x01,
     0x24, 0x00, 0x00, 0x00, 0x61, 0x2E, 0x74, 0x78, 0x74, 0x50, 0x4B, 0x05, 0x06, 0x00, 0x00,
     0x00, 0x00, 0x02, 0x00, 0x02, 0x00, 0x66, 0x00, 0x00, 0x00, 0x48, 0x00, 0x00, 0x00, 0x00,
     0x00]"

definition no_member_bytes :: bytes where
  "no_member_bytes =
    [0x50, 0x4B, 0x03, 0x04, 0x14, 0x00, 0x00, 0x00, 0x00, 0x00, 0x00, 0x00, 0x21, 0x58, 0x90,
     0x54, 0x0C, 0x4F, 0x03, 0x00, 0x00, 0x00, 0x03, 0x00, 0x00, 0x00, 0x09, 0x00, 0x00, 0x00,
     0x6D, 0x6F, 0x76, 0x69, 0x65, 0x2E, 0x73, 0x75, 0x62, 0x7B, 0x31, 0x7D, 0x50, 0x4B, 0x05,
     0x06, 0x00, 0x00, 0x00, 0x00, 0x00, 0x00, 0x00, 0x00, 0x00, 0x00, 0x00, 0x00, 0x2A, 0x00,
     0x00, 0x00, 0x00, 0x00]"

text \<open>
  What \<open>zipfile\<close> makes of these samples, as a table: the members it lists and what
  \<open>read\<close> without a password gives for each. Only the samples are looked up in it; the
  theorems below hold for every library.
\<close>

definition sample_zipfile :: zip_library where
  "sample_zipfile content =
     (if content = one_srt_bytes
        then Some [(''readme.txt'', Some [0x68, 0x69]), (''movie.srt'', Some srt_payload)]
      else if content = no_srt_bytes
        then Some [(''movie.sub'', Some sub_payload), (''notes.txt'', Some [0x68, 0x69])]
      else if content = stub_archive_bytes
        then Some [(''movie.srt'', Some srt_payload)]
      else if content = encrypted_srt_bytes
        then Some [(''movie.srt'', None)]
      else if content = encrypted_first_bytes
        then Some [(''movie.sub'', None), (''notes.txt'', Some [0x68, 0x69])]
      else if content = repeated_name_bytes
        then Some [(''a.txt'', Some [0x78]), (''a.txt'', Some [0x79])]
      else if content = no_member_bytes
        then Some []
      else None)"

lemma sample_lengths:
  "length one_srt_bytes = 216" "length no_srt_bytes = 215" "length stub_archive_bytes = 120"
  "length encrypted_srt_bytes = 130" "length encrypted_first_bytes = 227"
  "length repeated_name_bytes = 196" "length no_member_bytes = 64" "length truncated_bytes = 5"
  by (simp_all add: one_srt_bytes_def no_srt_bytes_def stub_archive_bytes_def
      encrypted_srt_bytes_def encrypted_first_bytes_def repeated_name_bytes_def
      no_member_bytes_def truncated_bytes_def zip_signature_def)

lemma neq_by_length: "length a \<noteq> length b \<Longrightarrow> a \<noteq> b"
  by auto

lemma sample_signatures:
  "take 4 one_srt_bytes = zip_signature" "take 4 no_srt_bytes = zip_signature"
  "take 4 truncated_bytes = zip_signature" "take 4 srt_payload \<noteq> zip_signature"
  "take 4 stub_archive_bytes \<noteq> zip_signature" "take 4 encrypted_srt_bytes = zip_signature"
  "take 4 encrypted_first_bytes = zip_signature" "take 4 repeated_name_bytes = zip_signature"
  "take 4 no_member_bytes = zip_signature"
  by (simp_all add: one_srt_bytes_def no_srt_bytes_def truncated_bytes_def srt_payload_def
      stub_archive_bytes_def encrypted_srt_bytes_def encrypted_first_bytes_def
      repeated_name_bytes_def no_member_bytes_def zip_signature_def)

lemma sample_zipfile_opens:
  "sample_zipfile one_srt_bytes
     = Some [(''readme.txt'', Some [0x68, 0x69]), (''movie.srt'', Some srt_payload)]"
  "sample_zipfile no_srt_bytes
     = Some [(''movie.sub'', Some sub_payload), (''notes.txt'', Some [0x68, 0x69])]"
  "sample_zipfile stub_archive_bytes = Some [(''movie.srt'', Some srt_payload)]"
  "sample_zipfile encrypted_srt_bytes = Some [(''movie.srt'', None)]"
  "sample_zipfile encrypted_first_bytes
     = Some [(''movie.sub'', None), (''notes.txt'', Some [0x68, 0x69])]"
  "sample_zipfile repeated_name_bytes = Some [(''a.txt'', Some [0x78]), (''a.txt'', Some [0x79])]"
  "sample_zipfile no_member_bytes = Some []"
  "sample_zipfile truncated_bytes = None"
  unfolding sample_zipfile_def
  by (simp_all add: neq_by_length sample_lengths)

lemma first_srt_filter:
  "filter (\<lambda>name. endswith name ''.srt'') names = [n] \<Longrightarrow> first_srt names = Some n"
  by (induction names) (auto split: if_splits)

lemma first_srt_none:
  "(\<forall>name \<in> set names. \<not> endswith name ''.srt'') \<Longrightarrow> first_srt names = None"
  by (induction names) auto

lemma filter_narrow:
  "(\<And>x. Q x \<Longrightarrow> P x) \<Longrightarrow> filter Q xs = filter Q (filter P xs)"
  by (induction xs) auto

text \<open>When exactly one member has a name ending in \<open>.srt\<close>, the loop stops at that name
  and \<open>read\<close> finds that member.\<close>

lemma only_srt_member:
  assumes "filter (\<lambda>m. endswith (fst m) ''.srt'') zf = [(n, c)]"
  shows "first_srt (namelist zf) = Some n" and "read zf n = c"
proof -
  have "filter (\<lambda>name. endswith name ''.srt'') (map fst zf)
      = map fst (filter (\<lambda>m. endswith (fst m) ''.srt'') zf)"
    by (simp add: filter_map comp_def)
  then have "filter (\<lambda>name. endswith name ''.srt'') (namelist zf) = [n]"
    using assms by (simp add: namelist_def)
  then show "first_srt (namelist zf) = Some n" by (rule first_srt_filter)
  have "(n, c) \<in> set (filter (\<lambda>m. endswith (fst m) ''.srt'') zf)"
    using assms by simp
  then have srt: "endswith n ''.srt''" by simp
  have "filter (\<lambda>m. fst m = n) zf
      = filter (\<lambda>m. fst m = n) (filter (\<lambda>m. endswith (fst m) ''.srt'') zf)"
    by (rule filter_narrow) (simp add: srt)
  then have "filter (\<lambda>m. fst m = n) zf = [(n, c)]"
    using assms by simp
  then show "read zf n = c" by (simp add: read_def)
qed

lemma read_first_unrepeated:
  "n \<notin> set (namelist rest) \<Longrightarrow> read ((n, c) # rest) n = c"
proof -
  assume "n \<notin> set (namelist rest)"
  then have "filter (\<lambda>m. fst m = n) rest = []"
    by (auto simp: namelist_def filter_empty_conv)
  then show ?thesis by (simp add: read_def)
qed

text \<open>
  C3, as the code has it. Bytes that do not begin with the local-file-header signature
  \<open>PK\x03\x04\<close> are returned unchanged. Bytes that begin with the signature, that the
  library opens as an archive with exactly one member whose name ends in \<open>.srt\<close>, and whose
  \<open>.srt\<close> member the library can read, give exactly that member's bytes. Both conditions
  are needed: the method looks at the first four bytes before it ever calls the library, and
  it returns its input when \<open>read\<close> raises (both shown after the theorem).
\<close>

theorem extract_srt_member:
  "(take 4 b \<noteq> zip_signature \<longrightarrow> extract_subtitle_content ZipFile b = b) \<and>
   (take 4 b = zip_signature \<and> ZipFile b = Some zf \<and>
    filter (\<lambda>m. endswith (fst m) ''.srt'') zf = [(n, Some member)]
      \<longrightarrow> extract_subtitle_content ZipFile b = member)"
proof (intro conjI impI)
  assume "take 4 b \<noteq> zip_signature"
  then show "extract_subtitle_content ZipFile b = b"
    by (simp add: extract_subtitle_content_def)
next
  assume a: "take 4 b = zip_signature \<and> ZipFile b = Some zf \<and>
    filter (\<lambda>m. endswith (fst m) ''.srt'') zf = [(n, Some member)]"
  then have "first_srt (namelist zf) = Some n" "read zf n = Some member"
    using only_srt_member [of zf n "Some member"] by simp_all
  with a show "extract_subtitle_content ZipFile b = member"
    by (simp add: extract_subtitle_content_def)
qed

theorem extract_srt_member_witness:
  "extract_subtitle_content sample_zipfile srt_payload = srt_payload \<and>
   extract_subtitle_content sample_zipfile one_srt_bytes = srt_payload"
proof -
  have f: "filter (\<lambda>m. endswith (fst m) ''.srt'')
             [(''readme.txt'', Some [0x68, 0x69 :: byte]), (''movie.srt'', Some srt_payload)]
           = [(''movie.srt'', Some srt_payload)]"
    by (simp add: endswith_def suffix_def)
  show ?thesis
    using extract_srt_member [of srt_payload sample_zipfile]
      extract_srt_member [of one_srt_bytes sample_zipfile
        "[(''readme.txt'', Some [0x68, 0x69]), (''movie.srt'', Some srt_payload)]"
        "''movie.srt''" srt_payload]
      sample_signatures(1,4) sample_zipfile_opens(1) f
    by blast
qed

theorem extract_needs_signature_and_readable_member:
  "take 4 stub_archive_bytes \<noteq> zip_signature \<and>
   sample_zipfile stub_archive_bytes = Some [(''movie.srt'', Some srt_payload)] \<and>
   extract_subtitle_content sample_zipfile stub_archive_bytes = stub_archive_bytes \<and>
   stub_archive_bytes \<noteq> srt_payload \<and>
   take 4 encrypted_srt_bytes = zip_signature \<and>
   sample_zipfile encrypted_srt_bytes = Some [(''movie.srt'', None)] \<and>
   extract_subtitle_content sample_zipfile encrypted_srt_bytes = encrypted_srt_bytes \<and>
   encrypted_srt_bytes \<noteq> srt_payload"
proof -
  have 1: "extract_subtitle_content sample_zipfile stub_archive_bytes = stub_archive_bytes"
    by (simp add: extract_subtitle_content_def sample_signatures)
  have 2: "extract_subtitle_content sample_zipfile encrypted_srt_bytes = encrypted_srt_bytes"
    by (simp add: extract_subtitle_content_def sample_signatures sample_zipfile_opens
        namelist_def read_def endswith_def suffix_def)
  have 3: "stub_archive_bytes \<noteq> srt_payload" "encrypted_srt_bytes \<noteq> srt_payload"
    by (rule neq_by_length, simp add: sample_lengths srt_payload_def)+
  from 1 2 3 sample_signatures(5,6) sample_zipfile_opens(3,4) show ?thesis by blast
qed

text \<open>
  C10, as the code has it. For bytes that begin with \<open>PK\x03\x04\<close> and that the library
  opens as an archive with no member name ending in \<open>.srt\<close>: when the archive has a member,
  the result is what \<open>read\<close> returns for the first name of \<open>namelist()\<close>, whatever its
  extension, provided that \<open>read\<close> succeeds; these are the first member's bytes when no
  later member repeats its name. The input comes back unchanged when the archive has no
  member, when the constructor raises, and when that \<open>read\<close> raises. An archive whose
  first member is encrypted, and one whose first name is repeated, are shown after the theorem.
\<close>

theorem extract_first_member:
  "(take 4 b = zip_signature \<and> ZipFile b = Some zf \<and>
    (\<forall>name \<in> set (namelist zf). \<not> endswith name ''.srt'') \<longrightarrow>
      (case zf of
         [] \<Rightarrow> extract_subtitle_content ZipFile b = b
       | (name, c) # rest \<Rightarrow>
           extract_subtitle_content ZipFile b
             = (case read zf name of Some member \<Rightarrow> member | None \<Rightarrow> b) \<and>
           (name \<notin> set (namelist rest) \<longrightarrow> read zf name = c))) \<and>
   (take 4 b = zip_signature \<and> ZipFile b = None \<longrightarrow> extract_subtitle_content ZipFile b = b)"
proof (intro conjI impI)
  assume a: "take 4 b = zip_signature \<and> ZipFile b = Some zf \<and>
    (\<forall>name \<in> set (namelist zf). \<not> endswith name ''.srt'')"
  then have none: "first_srt (namelist zf) = None" by (simp add: first_srt_none)
  show "case zf of
         [] \<Rightarrow> extract_subtitle_content ZipFile b = b
       | (name, c) # rest \<Rightarrow>
           extract_subtitle_content ZipFile b
             = (case read zf name of Some member \<Rightarrow> member | None \<Rightarrow> b) \<and>
           (name \<notin> set (namelist rest) \<longrightarrow> read zf name = c)"
  proof (cases zf)
    case Nil
    with a none show ?thesis by (simp add: extract_subtitle_content_def namelist_def)
  next
    case (Cons m rest)
    obtain name c where m: "m = (name, c)" by (cases m)
    have names: "namelist zf = name # namelist rest" by (simp add: Cons m namelist_def)
    have "extract_subtitle_content ZipFile b
        = (case read zf name of Some member \<Rightarrow> member | None \<Rightarrow> b)"
      using a none by (simp add: extract_subtitle_content_def names split: option.splits)
    moreover have "name \<notin> set (namelist rest) \<longrightarrow> read zf name = c"
      unfolding Cons m by (rule impI) (rule read_first_unrepeated)
    ultimately show ?thesis by (simp add: Cons m)
  qed
next
  assume "take 4 b = zip_signature \<and> ZipFile b = None"
  then show "extract_subtitle_content ZipFile b = b"
    by (simp add: extract_subtitle_content_def)
qed

lemma no_srt_names:
  "\<forall>name \<in> set (namelist [(''movie.sub'', c), (''notes.txt'', d)]). \<not> endswith name ''.srt''"
  "\<forall>name \<in> set (namelist [(''a.txt'', c), (''a.txt'', d)]). \<not> endswith name ''.srt''"
  by (simp_all add: namelist_def endswith_def suffix_def)

theorem extract_first_member_witness:
  "extract_subtitle_content sample_zipfile no_srt_bytes = sub_payload \<and>
   extract_subtitle_content sample_zipfile no_member_bytes = no_member_bytes \<and>
   extract_subtitle_content sample_zipfile truncated_bytes = truncated_bytes"
proof -
  let ?zf = "[(''movie.sub'', Some sub_payload), (''notes.txt'', Some [0x68, 0x69 :: byte])]"
  have r: "read ?zf ''movie.sub'' = Some sub_payload" by (simp add: read_def)
  have "extract_subtitle_content sample_zipfile no_srt_bytes
      = (case read ?zf ''movie.sub'' of Some member \<Rightarrow> member | None \<Rightarrow> no_srt_bytes)"
    using extract_first_member [of no_srt_bytes sample_zipfile ?zf]
      sample_signatures(2) sample_zipfile_opens(2) no_srt_names(1)
    by simp
  then have 1: "extract_subtitle_content sample_zipfile no_srt_bytes = sub_payload"
    by (simp add: r)
  have "\<forall>name \<in> set (namelist ([] :: zip_file)). \<not> endswith name ''.srt''"
    by (simp add: namelist_def)
  then have 2: "extract_subtitle_content sample_zipfile no_member_bytes = no_member_bytes"
    using extract_first_member [of no_member_bytes sample_zipfile "[]"]
      sample_signatures(9) sample_zipfile_opens(7)
    by simp
  have 3: "extract_subtitle_content sample_zipfile truncated_bytes = truncated_bytes"
    using extract_first_member [of truncated_bytes sample_zipfile]
      sample_signatures(3) sample_zipfile_opens(8)
    by blast
  from 1 2 3 show ?thesis by blast
qed

theorem first_member_not_returned:
  "take 4 encrypted_first_bytes = zip_signature \<and>
   sample_zipfile encrypted_first_bytes
     = Some [(''movie.sub'', None), (''notes.txt'', Some [0x68, 0x69])] \<and>
   extract_subtitle_content sample_zipfile encrypted_first_bytes = encrypted_first_bytes \<and>
   take 4 repeated_name_bytes = zip_signature \<and>
   sample_zipfile repeated_name_bytes = Some [(''a.txt'', Some [0x78]), (''a.txt'', Some [0x79])] \<and>
   extract_subtitle_content sample_zipfile repeated_name_bytes = [0x79] \<and>
   extract_subtitle_content sample_zipfile repeated_name_bytes \<noteq> [0x78]"
proof -
  have 1: "extract_subtitle_content sample_zipfile encrypted_first_bytes = encrypted_first_bytes"
    by (simp add: extract_subtitle_content_def sample_signatures sample_zipfile_opens
        namelist_def read_def endswith_def suffix_def)
  have 2: "extract_subtitle_content sample_zipfile repeated_name_bytes = [0x79]"
    by (simp add: extract_subtitle_content_def sample_signatures sample_zipfile_opens
        namelist_def read_def endswith_def suffix_def)
  from 1 2 sample_signatures(7,8) sample_zipfile_opens(5,6) show ?thesis by simp
qed

subsection \<open>Python values and outcomes of external calls\<close>

text \<open>
  A call into a library, the network or the file system either raises an exception or
  returns a value.
\<close>

datatype 'a io = Raised | Returned 'a

text \<open>Decoded JSON, as \<open>response.json()\<close> returns it.\<close>

datatype json =
  JNull | JBool bool | JNum int | JStr string | JArr "json list" | JObj "(string \<times> json) list"

text \<open>\<open>d.get(key, default)\<close>: only a dict has the method; on any other value the
  attribute lookup raises \<open>AttributeError\<close>.\<close>

fun py_get :: "json \<Rightarrow> string \<Rightarrow> json \<Rightarrow> json io" where
  "py_get (JObj kvs) key dflt = Returned (case map_of kvs key of Some v \<Rightarrow> v | None \<Rightarrow> dflt)"
| "py_get _ key dflt = Raised"

text \<open>Truthiness (\<open>if x:\<close>, \<open>not x\<close>).\<close>

fun truthy :: "json \<Rightarrow> bool" where
  "truthy JNull = False"
| "truthy (JBool b) = b"
| "truthy (JNum n) = (n \<noteq> 0)"
| "truthy (JStr s) = (s \<noteq> [])"
| "truthy (JArr xs) = (xs \<noteq> [])"
| "truthy (JObj kvs) = (kvs \<noteq> [])"

text \<open>An HTTP response of the \<open>requests\<close> library.\<close>

record response =
  status_code :: nat
  json_body :: "json io"
  content :: bytes

subsection \<open>Paths and the file system\<close>

text \<open>
  A path is a directory and a final component, as \<open>pathlib.Path\<close> splits it into
  \<open>parent\<close> and \<open>name\<close>. \<open>stem\<close> and \<open>suffix\<close> follow pathlib: the name is cut at its
  last dot unless that dot is the first or the last character.
\<close>

record path =
  parent :: string
  name :: string

definition rfind_dot :: "string \<Rightarrow> int" where
  "rfind_dot s =
     (if CHR ''.'' \<in> set s
      then int (length s) - 1 - int (length (takeWhile (\<lambda>c. c \<noteq> CHR ''.'') (rev s)))
      else - 1)"

definition stem :: "path \<Rightarrow> string" where
  "stem p = (let i = rfind_dot (name p)
             in if 0 < i \<and> i < int (length (name p)) - 1 then take (nat i) (name p) else name p)"

definition suffix_of :: "path \<Rightarrow> string" where
  "suffix_of p = (let i = rfind_dot (name p)
                  in if 0 < i \<and> i < int (length (name p)) - 1 then drop (nat i) (name p) else '''')"

text \<open>\<open>video.parent / sub_name\<close>, with \<open>sub_name\<close> a single path component.\<close>

definition joinpath :: "string \<Rightarrow> string \<Rightarrow> path" where
  "joinpath dir file = \<lparr>parent = dir, name = file\<rparr>"

type_synonym filesystem = "path \<rightharpoonup> bytes"

subsection \<open>Search results and downloads of the orchestrator (main.py)\<close>

text \<open>
  A search result of the orchestrator is a dict. The model keeps the keys the download path
  reads: \<open>provider\<close> (absent in results of the structured API), \<open>attributes.language\<close>,
  the \<open>file_id\<close> of each entry of \<open>attributes.files\<close>, and the two back-references
  \<open>_subliminal_sub\<close> and \<open>_subliminal_video\<close> that only the aggregator sets (handles of
  library objects, here numbers).
\<close>

record subtitle =
  sub_provider :: "string option"
  sub_language :: "string option"
  sub_files :: "int option list"
  subliminal_sub :: "nat option"
  subliminal_video :: "nat option"

text \<open>
  What surrounds the orchestrator: the two configuration flags, the network and the
  aggregator library. \<open>post_download file_id\<close> is the outcome of
  \<open>requests.post(.../download, json={'file_id': file_id})\<close>, \<open>http_get url\<close> that of
  \<open>requests.get(url)\<close>, \<open>pool_download_subtitle sub\<close> is \<open>sub.content\<close> after
  \<open>pool.download_subtitle(sub)\<close>, and \<open>writable p\<close> tells whether \<open>open(p, 'wb')\<close> and
  the write succeed.
\<close>

record world =
  OPENSUBTITLES_API_KEY :: bool
  SUBLIMINAL_AVAILABLE :: bool
  post_download :: "int \<Rightarrow> response io"
  http_get :: "string \<Rightarrow> response io"
  pool_download_subtitle :: "nat \<Rightarrow> bytes io"
  writable :: "path \<Rightarrow> bool"

text \<open>\<open>OpenSubtitlesAPI.download\<close>: the link, or None (here \<open>JNull\<close>).\<close>

definition api_download :: "world \<Rightarrow> int \<Rightarrow> json" where
  "api_download w file_id =
     (case post_download w file_id of
        Raised \<Rightarrow> JNull
      | Returned r \<Rightarrow>
          if status_code r = 200 then
            (case json_body r of
               Raised \<Rightarrow> JNull
             | Returned data \<Rightarrow> (case py_get data ''link'' JNull of Raised \<Rightarrow> JNull | Returned l \<Rightarrow> l))
          else JNull)"

text \<open>\<open>SubliminalFallback.download\<close>.\<close>

definition subliminal_download :: "world \<Rightarrow> subtitle \<Rightarrow> bytes option" where
  "subliminal_download w subtitle_data =
     (if \<not> SUBLIMINAL_AVAILABLE w then None
      else case (subliminal_sub subtitle_data, subliminal_video subtitle_data) of
        (Some sub, Some video) \<Rightarrow>
          (case pool_download_subtitle w sub of
             Raised \<Rightarrow> None
           | Returned c \<Rightarrow> if c \<noteq> [] then Some c else None)
      | _ \<Rightarrow> None)"

text \<open>\<open>requests.get(download_link)\<close>: the library raises on a link that is not a string.\<close>

definition get_link :: "world \<Rightarrow> json \<Rightarrow> response io" where
  "get_link w download_link =
     (case download_link of JStr url \<Rightarrow> http_get w url | _ \<Rightarrow> Raised)"

text \<open>
  The two-step download of the structured API as \<open>_do_download_all\<close> has it: an exception
  of \<open>requests.get\<close> propagates. \<open>_do_download\<close> wraps the same statements in
  \<open>try ... except: pass\<close>.
\<close>

definition api_two_step :: "world \<Rightarrow> subtitle \<Rightarrow> bytes option io" where
  "api_two_step w subtitle_data =
     (case sub_files subtitle_data of
        [] \<Rightarrow> Returned None
      | file_id # _ \<Rightarrow>
          (case file_id of
             None \<Rightarrow> Returned None
           | Some i \<Rightarrow>
               if i = 0 then Returned None
               else let download_link = api_download w i in
                 if truthy download_link then
                   (case get_link w download_link of
                      Raised \<Rightarrow> Raised
                    | Returned r \<Rightarrow>
                        if status_code r = 200 then Returned (Some (content r)) else Returned None)
                 else Returned None))"

definition provider_name :: "subtitle \<Rightarrow> string" where
  "provider_name subtitle_data =
     (case sub_provider subtitle_data of Some p \<Rightarrow> p | None \<Rightarrow> ''OpenSubtitles'')"

text \<open>The dispatch on the provider name, as in \<open>_do_download_all\<close>.\<close>

definition fetch_content_batch :: "world \<Rightarrow> subtitle \<Rightarrow> bytes option io" where
  "fetch_content_batch w subtitle_data =
     (if sublist ''Subliminal'' (provider_name subtitle_data)
      then Returned (subliminal_download w subtitle_data)
      else api_two_step w subtitle_data)"

text \<open>The same dispatch in \<open>_do_download\<close>, where the exception is swallowed.\<close>

definition fetch_content :: "world \<Rightarrow> subtitle \<Rightarrow> bytes option" where
  "fetch_content w subtitle_data =
     (case fetch_content_batch w subtitle_data of Raised \<Rightarrow> None | Returned c \<Rightarrow> c)"

text \<open>
  Persisting: the name \<open>f"{video.stem}.{language}.srt"\<close> beside the video, opened with
  mode \<open>'wb'\<close>, which replaces the content of an existing file.
\<close>

definition sub_name_for :: "path \<Rightarrow> subtitle \<Rightarrow> string" where
  "sub_name_for video subtitle_data =
     (let language = (case sub_language subtitle_data of Some l \<Rightarrow> l | None \<Rightarrow> ''es'')
      in stem video @ ''.'' @ language @ ''.srt'')"

definition persist ::
  "world \<Rightarrow> zip_library \<Rightarrow> filesystem \<Rightarrow> path \<Rightarrow> subtitle \<Rightarrow> bytes \<Rightarrow> filesystem io" where
  "persist w ZipFile fs video subtitle_data content0 =
     (let content1 = extract_subtitle_content ZipFile content0;
          sub_path = joinpath (parent video) (sub_name_for video subtitle_data)
      in if writable w sub_path then Returned (fs(sub_path \<mapsto> content1)) else Raised)"

text \<open>\<open>_do_download\<close>: the new file system and the status shown to the user.\<close>

datatype status = Downloaded string | DownloadError | SaveError

definition do_download ::
  "world \<Rightarrow> zip_library \<Rightarrow> filesystem \<Rightarrow> path \<Rightarrow> subtitle \<Rightarrow> filesystem \<times> status" where
  "do_download w ZipFile fs current_video_path subtitle_data =
     (case fetch_content w subtitle_data of
        None \<Rightarrow> (fs, DownloadError)
      | Some c \<Rightarrow>
          if c = [] then (fs, DownloadError)
          else (case persist w ZipFile fs current_video_path subtitle_data c of
                  Raised \<Rightarrow> (fs, SaveError)
                | Returned fs' \<Rightarrow> (fs', Downloaded (sub_name_for current_video_path subtitle_data))))"

text \<open>A world for examples: one file id the API serves, one aggregator handle, one writable
  directory.\<close>

definition demo_world :: world where
  "demo_world =
     \<lparr>OPENSUBTITLES_API_KEY = True,
      SUBLIMINAL_AVAILABLE = True,
      post_download = (\<lambda>file_id.
         if file_id = 7001
         then Returned \<lparr>status_code = 200,
                         json_body = Returned (JObj [(''link'', JStr ''https://dl.example/7001'')]),
                         content = []\<rparr>
         else Returned \<lparr>status_code = 404, json_body = Raised, content = []\<rparr>),
      http_get = (\<lambda>url.
         if url = ''https://dl.example/7001''
         then Returned \<lparr>status_code = 200, json_body = Raised, content = srt_payload\<rparr>
         else Raised),
      pool_download_subtitle = (\<lambda>sub. if sub = 1 then Returned sub_payload else Raised),
      writable = (\<lambda>p. parent p = ''/videos'')\<rparr>"

definition api_result :: subtitle where
  "api_result =
     \<lparr>sub_provider = None, sub_language = Some ''es'', sub_files = [Some 7001],
      subliminal_sub = None, subliminal_video = None\<rparr>"

definition aggregator_result :: subtitle where
  "aggregator_result =
     \<lparr>sub_provider = Some ''Subliminal (podnapisi)'', sub_language = Some ''en'',
      sub_files = [None], subliminal_sub = Some 1, subliminal_video = Some 2\<rparr>"

definition show_video :: path where
  "show_video = \<lparr>parent = ''/videos'', name = ''Show.S01E02.mkv''\<rparr>"

definition old_subtitle_fs :: filesystem where
  "old_subtitle_fs = [\<lparr>parent = ''/videos'', name = ''Show.S01E02.es.srt''\<rparr> \<mapsto> sub_payload]"

lemma stem_show_video: "stem show_video = ''Show.S01E02''"
  by (simp add: show_video_def stem_def rfind_dot_def)

lemma sub_name_show_video: "sub_name_for show_video api_result = ''Show.S01E02.es.srt''"
  by (simp add: sub_name_for_def stem_show_video api_result_def)

lemma api_download_demo: "api_download demo_world 7001 = JStr ''https://dl.example/7001''"
  by (simp add: api_download_def demo_world_def)

lemma default_provider_not_aggregator: "\<not> sublist ''Subliminal'' ''OpenSubtitles''"
  by code_simp

lemma aggregator_provider_name: "sublist ''Subliminal'' ''Subliminal (podnapisi)''"
  by code_simp

lemma fetch_api_result: "fetch_content demo_world api_result = Some srt_payload"
proof -
  have "api_two_step demo_world api_result = Returned (Some srt_payload)"
    by (simp add: api_two_step_def api_result_def api_download_demo get_link_def)
      (simp add: demo_world_def)
  moreover have "provider_name api_result = ''OpenSubtitles''"
    by (simp add: provider_name_def api_result_def)
  ultimately show ?thesis
    by (simp add: fetch_content_def fetch_content_batch_def default_provider_not_aggregator)
qed

lemma persist_written:
  "persist w ZipFile fs video s c = Returned fs' \<Longrightarrow>
     fs' = fs(joinpath (parent video) (sub_name_for video s) \<mapsto> extract_subtitle_content ZipFile c)"
  by (simp add: persist_def Let_def split: if_splits)

text \<open>
  C4. When the download gave non-empty bytes and the file can be written, \<open>_do_download\<close>
  writes the (extracted) bytes to \<open><video-stem>.<language>.srt\<close> in the video's directory and
  reports that name; the file system changes at that path only, and whatever the path held
  before is replaced. For \<open>Show.S01E02.mkv\<close> and \<open>es\<close> the name is
  \<open>Show.S01E02.es.srt\<close>.
\<close>

theorem download_writes_named_file:
  "fetch_content w s = Some c \<and> c \<noteq> [] \<and> sub_language s = Some lang \<and>
   target = \<lparr>parent = parent video, name = stem video @ ''.'' @ lang @ ''.srt''\<rparr> \<and>
   writable w target \<longrightarrow>
     do_download w ZipFile fs video s
       = (fs(target \<mapsto> extract_subtitle_content ZipFile c),
          Downloaded (stem video @ ''.'' @ lang @ ''.srt'')) \<and>
     fst (do_download w ZipFile fs video s) target = Some (extract_subtitle_content ZipFile c) \<and>
     (\<forall>p. p \<noteq> target \<longrightarrow> fst (do_download w ZipFile fs video s) p = fs p)"
  by (simp add: do_download_def persist_def sub_name_for_def joinpath_def Let_def)

theorem download_writes_named_file_witness:
  "old_subtitle_fs \<lparr>parent = ''/videos'', name = ''Show.S01E02.es.srt''\<rparr> = Some sub_payload \<and>
   do_download demo_world sample_zipfile old_subtitle_fs show_video api_result
     = (old_subtitle_fs(\<lparr>parent = ''/videos'', name = ''Show.S01E02.es.srt''\<rparr> \<mapsto> srt_payload),
        Downloaded ''Show.S01E02.es.srt'')"
proof -
  let ?target = "\<lparr>parent = ''/videos'', name = ''Show.S01E02.es.srt''\<rparr>"
  have t: "?target = \<lparr>parent = parent show_video, name = stem show_video @ ''.'' @ ''es'' @ ''.srt''\<rparr>"
    by (simp add: stem_show_video) (simp add: show_video_def)
  have w: "writable demo_world ?target" by (simp add: demo_world_def)
  have l: "sub_language api_result = Some ''es''" by (simp add: api_result_def)
  have n: "srt_payload \<noteq> []" by (simp add: srt_payload_def)
  have e: "extract_subtitle_content sample_zipfile srt_payload = srt_payload"
    by (simp add: extract_subtitle_content_def sample_signatures)
  have "do_download demo_world sample_zipfile old_subtitle_fs show_video api_result
     = (old_subtitle_fs(?target \<mapsto> extract_subtitle_content sample_zipfile srt_payload),
        Downloaded (stem show_video @ ''.'' @ ''es'' @ ''.srt''))"
    using download_writes_named_file [of demo_world api_result srt_payload "''es''" ?target
        show_video sample_zipfile old_subtitle_fs] fetch_api_result n l t w
    by blast
  then show ?thesis
    by (simp add: e stem_show_video old_subtitle_fs_def)
qed

subsection \<open>Provider classes (src/providers): results and the structured-API download\<close>

datatype Language = SPANISH_SPAIN | SPANISH_LATAM | ENGLISH

text \<open>The result of \<open>float(x)\<close>, kept symbolic.\<close>

datatype pyfloat = FloatOf json

record SubtitleResult =
  title :: json
  language :: Language
  provider :: string
  download_url :: json
  description :: json
  downloads :: json
  rating :: pyfloat

text \<open>
  \<open>os.path.join(a, b)\<close> of \<open>posixpath\<close>: a second component that starts with a slash
  replaces the first one; otherwise the two are put together with one slash between them,
  unless the first is empty or already ends in a slash. Nothing is normalised, so a
  component \<open>..\<close> stays in the result.
\<close>

definition os_path_join :: "string \<Rightarrow> string \<Rightarrow> string" where
  "os_path_join a b =
     (if b \<noteq> [] \<and> hd b = CHR ''/'' then b
      else if a = [] \<or> last a = CHR ''/'' then a @ b
      else a @ ''/'' @ b)"

text \<open>
  The directory and the final component of a path string, as \<open>os.path.split\<close> cuts it at
  the last slash: trailing slashes are removed from the directory unless it consists of
  slashes only.
\<close>

definition os_path_split :: "string \<Rightarrow> path" where
  "os_path_split p =
     (let tail = rev (takeWhile (\<lambda>c. c \<noteq> CHR ''/'') (rev p));
          head = take (length p - length tail) p;
          stripped = rev (dropWhile (\<lambda>c. c = CHR ''/'') (rev head))
      in \<lparr>parent = (if stripped = [] then head else stripped), name = tail\<rparr>)"

text \<open>
  \<open>with open(filepath, 'wb') as f: f.write(data)\<close> on a path string. A string without a
  final component (empty, or ending in a slash) names no file and \<open>open\<close> raises.
\<close>

definition open_wb :: "world \<Rightarrow> filesystem \<Rightarrow> string \<Rightarrow> bytes \<Rightarrow> filesystem io" where
  "open_wb w fs filepath data =
     (let p = os_path_split filepath
      in if name p \<noteq> [] \<and> writable w p then Returned (fs(p \<mapsto> data)) else Raised)"

text \<open>
  \<open>OpenSubtitlesProvider.download\<close>. Every exception inside its \<open>try\<close> block makes it
  return None; otherwise it returns the path string of the file it wrote. The builtin
  \<open>int\<close> is a parameter \<open>py_int\<close> (\<open>None\<close> when \<open>int(x)\<close> raises), so that what is
  proved of the method holds for every argument the builtin accepts, in every version of
  the interpreter. The response of the second request is written whatever its status code.
\<close>

definition OpenSubtitlesProvider_download ::
  "(json \<Rightarrow> int option) \<Rightarrow> string \<Rightarrow> world \<Rightarrow> filesystem \<Rightarrow> SubtitleResult \<Rightarrow> string
     \<Rightarrow> filesystem \<times> string option" where
  "OpenSubtitlesProvider_download py_int api_key w fs subtitle destination =
     (if api_key = [] then (fs, None)
      else case py_int (download_url subtitle) of
        None \<Rightarrow> (fs, None)
      | Some file_id \<Rightarrow>
          (case post_download w file_id of
             Raised \<Rightarrow> (fs, None)
           | Returned response \<Rightarrow>
               if status_code response \<noteq> 200 then (fs, None)
               else (case json_body response of
                  Raised \<Rightarrow> (fs, None)
                | Returned data \<Rightarrow>
                    (case py_get data ''link'' JNull of
                       Raised \<Rightarrow> (fs, None)
                     | Returned download_link \<Rightarrow>
                         if \<not> truthy download_link then (fs, None)
                         else (case get_link w download_link of
                            Raised \<Rightarrow> (fs, None)
                          | Returned dl_response \<Rightarrow>
                              (case py_get data ''file_name'' (JStr ''subtitle.srt'') of
                                 Returned (JStr filename) \<Rightarrow>
                                   let filepath = os_path_join destination filename in
                                   (case open_wb w fs filepath (content dl_response) of
                                      Raised \<Rightarrow> (fs, None)
                                    | Returned fs' \<Rightarrow> (fs', Some filepath))
                               | _ \<Rightarrow> (fs, None)))))))"

text \<open>
  The builtin \<open>int\<close> for the examples, on the values a decoded response or a result can
  hold. On a string (here: of characters with code points below 256) surrounding whitespace
  is stripped, a sign may come first, then decimal digits, where single underscores may
  separate digits; a string with more than 4300 digits is refused (the default of
  \<open>sys.get_int_max_str_digits()\<close>). Anything else raises \<open>ValueError\<close>. The whitespace
  \<open>int\<close> strips is the ASCII set \<open>\t \n \x0b \x0c \r\<close> and space, and the Unicode
  whitespace outside ASCII, of which \<open>\x85\<close> and the no-break space \<open>\xa0\<close> lie below 256.
\<close>

definition is_space :: "char \<Rightarrow> bool" where
  "is_space c =
     (c \<in> set [CHR '' '', CHR 0x09, CHR 0x0A, CHR 0x0B, CHR 0x0C, CHR 0x0D, CHR 0x85, CHR 0xA0])"

definition is_digit :: "char \<Rightarrow> bool" where
  "is_digit c = (c \<in> set ''0123456789'')"

definition digit_val :: "char \<Rightarrow> nat" where
  "digit_val c = of_char c - 48"

definition strip :: "string \<Rightarrow> string" where
  "strip s = rev (dropWhile is_space (rev (dropWhile is_space s)))"

fun parse_digits :: "bool \<Rightarrow> nat \<Rightarrow> string \<Rightarrow> nat option" where
  "parse_digits after_digit acc [] = (if after_digit then Some acc else None)"
| "parse_digits after_digit acc (c # cs) =
     (if is_digit c then parse_digits True (10 * acc + digit_val c) cs
      else if c = CHR ''_'' \<and> after_digit then parse_digits False acc cs
      else None)"

definition int_max_str_digits :: nat where
  "int_max_str_digits = 4300"

definition int_of_str :: "string \<Rightarrow> int option" where
  "int_of_str s =
     (if int_max_str_digits < length (filter is_digit s) then None
      else case strip s of
        [] \<Rightarrow> None
      | c # cs \<Rightarrow>
          if c = CHR ''-'' then map_option (\<lambda>n. - int n) (parse_digits False 0 cs)
          else if c = CHR ''+'' then map_option int (parse_digits False 0 cs)
          else map_option int (parse_digits False 0 (c # cs)))"

definition builtin_int :: "json \<Rightarrow> int option" where
  "builtin_int v =
     (case v of
        JStr s \<Rightarrow> int_of_str s
      | JNum n \<Rightarrow> Some n
      | JBool b \<Rightarrow> Some (if b then 1 else 0)
      | _ \<Rightarrow> None)"

text \<open>A result as \<open>SubliminalFallback.search_for_video\<close> of the orchestrator appends it:
  the provider name starts with \<open>Subliminal\<close>, the only \<open>file_id\<close> is None, and the two
  back-references hold the library's subtitle and video objects.\<close>

definition subliminal_result :: "string \<Rightarrow> string \<Rightarrow> nat \<Rightarrow> nat \<Rightarrow> subtitle" where
  "subliminal_result sub_provider_name lang_code sub video =
     \<lparr>sub_provider = Some (''Subliminal ('' @ sub_provider_name @ '')''),
      sub_language = Some lang_code,
      sub_files = [None],
      subliminal_sub = Some sub,
      subliminal_video = Some video\<rparr>"

text \<open>A result as \<open>SubliminalProvider.search_for_video\<close> builds it for a library subtitle
  whose id is 7001 and whose source is tvsubtitles.\<close>

definition foreign_result :: SubtitleResult where
  "foreign_result =
     \<lparr>title = JStr ''7001 - tvsubtitles'', language = ENGLISH,
      provider = ''Subliminal (tvsubtitles)'', download_url = JStr ''7001'',
      description = JStr '''', downloads = JNum 0, rating = FloatOf (JNum 0)\<rparr>"

text \<open>A result as \<open>SubDivXProvider.search\<close> builds it: the reference is the URL of a page.\<close>

definition page_result :: SubtitleResult where
  "page_result =
     \<lparr>title = JStr ''Show S01E02'', language = SPANISH_LATAM,
      provider = ''SubDivX'', download_url = JStr ''https://www.subdivx.com/X6'',
      description = JStr '''', downloads = JNum 0, rating = FloatOf (JNum 0)\<rparr>"

lemma os_path_examples:
  "os_path_join ''/videos'' ''subtitle.srt'' = ''/videos/subtitle.srt''"
  "os_path_join ''/videos/'' ''a.srt'' = ''/videos/a.srt''"
  "os_path_join ''/videos'' ''/etc/x'' = ''/etc/x''"
  "os_path_join ''/videos'' ''../x.srt'' = ''/videos/../x.srt''"
  "os_path_split ''/videos/subtitle.srt'' = \<lparr>parent = ''/videos'', name = ''subtitle.srt''\<rparr>"
  "os_path_split ''/etc/x'' = \<lparr>parent = ''/etc'', name = ''x''\<rparr>"
  "os_path_split ''/videos/../x.srt'' = \<lparr>parent = ''/videos/..'', name = ''x.srt''\<rparr>"
  "os_path_split ''/x'' = \<lparr>parent = ''/'', name = ''x''\<rparr>"
  "os_path_split ''/videos/'' = \<lparr>parent = ''/videos'', name = ''''\<rparr>"
  by (simp_all add: os_path_join_def os_path_split_def)

lemma builtin_int_examples:
  "builtin_int (JStr ''7001'') = Some 7001"
  "builtin_int (JStr '' -1_000 '') = Some (- 1000)"
  "builtin_int (JStr [CHR 0xA0, CHR ''7'', CHR ''0'', CHR ''0'', CHR ''1'']) = Some 7001"
  "builtin_int (JStr ''https://www.subdivx.com/X6'') = None"
  "builtin_int (JStr '''') = None"
  "builtin_int (JStr ''12_'') = None"
  "builtin_int (JStr [CHR ''7'', CHR 0x1F]) = None"
  "builtin_int JNull = None"
  by (simp_all add: builtin_int_def int_of_str_def int_max_str_digits_def strip_def is_space_def
      is_digit_def digit_val_def)

lemma aggregator_name: "sublist ''Subliminal'' (''Subliminal ('' @ pn @ '')'')"
proof -
  have "''Subliminal ('' @ pn @ '')'' = [] @ ''Subliminal'' @ ('' ('' @ pn @ '')'')" by simp
  then show ?thesis unfolding sublist_def by blast
qed

lemma fetch_content_aggregator:
  assumes "sublist ''Subliminal'' (provider_name s)"
  shows "fetch_content w s =
     (case (subliminal_sub s, subliminal_video s) of
        (Some sub, Some video) \<Rightarrow>
          (case pool_download_subtitle w sub of
             Returned c \<Rightarrow> if SUBLIMINAL_AVAILABLE w \<and> c \<noteq> [] then Some c else None
           | Raised \<Rightarrow> None)
      | _ \<Rightarrow> None)"
  using assms
  by (simp add: fetch_content_def fetch_content_batch_def subliminal_download_def
      split: option.splits io.splits)

lemma fetch_content_two_step:
  assumes "\<not> sublist ''Subliminal'' (provider_name s)"
  shows "fetch_content w s =
     (case sub_files s of
        Some file_id # _ \<Rightarrow>
          (case api_download w file_id of
             JStr link \<Rightarrow>
               (case http_get w link of
                  Returned r \<Rightarrow>
                    if file_id \<noteq> 0 \<and> link \<noteq> [] \<and> status_code r = 200
                    then Some (content r) else None
                | Raised \<Rightarrow> None)
           | _ \<Rightarrow> None)
      | _ \<Rightarrow> None)"
  using assms
  by (simp add: fetch_content_def fetch_content_batch_def api_two_step_def get_link_def Let_def
      split: list.splits option.splits io.splits json.splits)

lemma foreign_to_aggregator:
  "subliminal_sub s = None \<or> subliminal_video s = None \<Longrightarrow> subliminal_download w s = None"
  by (auto simp: subliminal_download_def split: option.splits)

lemma aggregator_to_two_step:
  "api_two_step w (subliminal_result pn lc sub video) = Returned None"
  by (simp add: api_two_step_def subliminal_result_def)

lemma provider_download_reference:
  "py_int (download_url r) = py_int (download_url r') \<Longrightarrow>
     OpenSubtitlesProvider_download py_int k w fs r dest
       = OpenSubtitlesProvider_download py_int k w fs r' dest"
  by (simp add: OpenSubtitlesProvider_download_def)

lemma provider_download_not_int:
  "py_int (download_url r) = None \<Longrightarrow>
     OpenSubtitlesProvider_download py_int k w fs r dest = (fs, None)"
  by (simp add: OpenSubtitlesProvider_download_def)

text \<open>
  C9, as the code has it. In the orchestrator every result is downloaded only through the
  provider that produced it. A result whose provider name contains \<open>Subliminal\<close> gets
  its content from the aggregator's own download of the subtitle object it refers to, and
  from nothing else; every other result gets it from the two-step download of the structured
  API (the link for its first \<open>file_id\<close>, then the bytes behind the link). A result of the
  aggregator always carries such a name. Passed to the other mechanism a result fails: one
  without the aggregator's back-references gives None in the aggregator's download, and an
  aggregator result gives None in the two-step download, its \<open>file_id\<close> being None.

  The provider classes do not look at the provider of a result.
  \<open>OpenSubtitlesProvider.download\<close> reads the download reference only, through
  \<open>int\<close>: it fails when \<open>int\<close> raises, and two results with the same integer are treated
  alike whoever produced them. So a foreign result whose reference is an integer literal is
  not rejected (shown after the theorem).
\<close>

theorem download_dispatch:
  "(sublist ''Subliminal'' (provider_name s) \<longrightarrow>
      fetch_content w s =
        (case (subliminal_sub s, subliminal_video s) of
           (Some sub, Some video) \<Rightarrow>
             (case pool_download_subtitle w sub of
                Returned c \<Rightarrow> if SUBLIMINAL_AVAILABLE w \<and> c \<noteq> [] then Some c else None
              | Raised \<Rightarrow> None)
         | _ \<Rightarrow> None)) \<and>
   (\<not> sublist ''Subliminal'' (provider_name s) \<longrightarrow>
      fetch_content w s =
        (case sub_files s of
           Some file_id # _ \<Rightarrow>
             (case api_download w file_id of
                JStr link \<Rightarrow>
                  (case http_get w link of
                     Returned r \<Rightarrow>
                       if file_id \<noteq> 0 \<and> link \<noteq> [] \<and> status_code r = 200
                       then Some (content r) else None
                   | Raised \<Rightarrow> None)
              | _ \<Rightarrow> None)
         | _ \<Rightarrow> None)) \<and>
   sublist ''Subliminal'' (provider_name (subliminal_result pn lc sub video)) \<and>
   fetch_content w (subliminal_result pn lc sub video)
     = (case pool_download_subtitle w sub of
          Returned c \<Rightarrow> if SUBLIMINAL_AVAILABLE w \<and> c \<noteq> [] then Some c else None
        | Raised \<Rightarrow> None) \<and>
   api_two_step w (subliminal_result pn lc sub video) = Returned None \<and>
   (subliminal_sub s = None \<or> subliminal_video s = None \<longrightarrow>
      subliminal_download w s = None \<and>
      (sublist ''Subliminal'' (provider_name s) \<longrightarrow> fetch_content w s = None)) \<and>
   (py_int (download_url r) = None \<longrightarrow>
      OpenSubtitlesProvider_download py_int k w fs r dest = (fs, None)) \<and>
   (py_int (download_url r) = py_int (download_url r') \<longrightarrow>
      OpenSubtitlesProvider_download py_int k w fs r dest
        = OpenSubtitlesProvider_download py_int k w fs r' dest)"
proof -
  have name: "sublist ''Subliminal'' (provider_name (subliminal_result pn lc sub video))"
    by (simp add: provider_name_def subliminal_result_def aggregator_name)
  have own: "fetch_content w (subliminal_result pn lc sub video)
     = (case pool_download_subtitle w sub of
          Returned c \<Rightarrow> if SUBLIMINAL_AVAILABLE w \<and> c \<noteq> [] then Some c else None
        | Raised \<Rightarrow> None)"
    using fetch_content_aggregator [OF name, of w] by (simp add: subliminal_result_def)
  have cross: "subliminal_sub s = None \<or> subliminal_video s = None \<longrightarrow>
      subliminal_download w s = None \<and>
      (sublist ''Subliminal'' (provider_name s) \<longrightarrow> fetch_content w s = None)"
    using foreign_to_aggregator [of s w]
    by (simp add: fetch_content_def fetch_content_batch_def)
  show ?thesis
    using fetch_content_aggregator [of s w] fetch_content_two_step [of s w] name own cross
      aggregator_to_two_step [of w pn lc sub video]
      provider_download_not_int [of py_int r k w fs dest]
      provider_download_reference [of py_int r r' k w fs dest]
    by blast
qed

theorem download_dispatch_witness:
  "fetch_content demo_world api_result = Some srt_payload \<and>
   fetch_content demo_world aggregator_result = Some sub_payload \<and>
   fetch_content demo_world (api_result\<lparr>sub_provider := Some ''Subliminal (podnapisi)''\<rparr>) = None \<and>
   api_two_step demo_world (subliminal_result ''podnapisi'' ''en'' 1 2) = Returned None \<and>
   OpenSubtitlesProvider_download builtin_int ''key'' demo_world Map.empty page_result ''/videos''
     = (Map.empty, None) \<and>
   OpenSubtitlesProvider_download builtin_int ''key'' demo_world Map.empty
       (page_result\<lparr>provider := ''OpenSubtitles'', download_url := JStr ''7001''\<rparr>) ''/videos''
     = OpenSubtitlesProvider_download builtin_int ''key'' demo_world Map.empty foreign_result ''/videos''"
proof -
  let ?renamed = "api_result\<lparr>sub_provider := Some ''Subliminal (podnapisi)''\<rparr>"
  let ?own = "page_result\<lparr>provider := ''OpenSubtitles'', download_url := JStr ''7001''\<rparr>"
  have n1: "\<not> sublist ''Subliminal'' (provider_name api_result)"
    by (simp add: provider_name_def api_result_def default_provider_not_aggregator)
  have n2: "sublist ''Subliminal'' (provider_name aggregator_result)"
    by (simp add: provider_name_def aggregator_result_def aggregator_provider_name)
  have n3: "sublist ''Subliminal'' (provider_name ?renamed)"
    by (simp add: provider_name_def aggregator_provider_name)
  have 1: "fetch_content demo_world api_result = Some srt_payload"
    using download_dispatch [of api_result demo_world] n1
    by (simp add: api_result_def api_download_demo) (simp add: demo_world_def srt_payload_def)
  have 2: "fetch_content demo_world aggregator_result = Some sub_payload"
    using download_dispatch [of aggregator_result demo_world] n2
    by (simp add: aggregator_result_def) (simp add: demo_world_def sub_payload_def)
  have 3: "fetch_content demo_world ?renamed = None"
    using download_dispatch [of ?renamed demo_world] n3
    by (simp add: api_result_def)
  have 4: "api_two_step demo_world (subliminal_result ''podnapisi'' ''en'' 1 2) = Returned None"
    using download_dispatch [of api_result demo_world "''podnapisi''" "''en''" 1 2] by blast
  have 5: "OpenSubtitlesProvider_download builtin_int ''key'' demo_world Map.empty page_result
      ''/videos'' = (Map.empty, None)"
    using download_dispatch [of api_result demo_world "''podnapisi''" "''en''" 1 2 builtin_int
        page_result "''key''" Map.empty "''/videos''"]
    by (simp add: page_result_def builtin_int_examples)
  have 6: "OpenSubtitlesProvider_download builtin_int ''key'' demo_world Map.empty ?own ''/videos''
     = OpenSubtitlesProvider_download builtin_int ''key'' demo_world Map.empty foreign_result ''/videos''"
    using download_dispatch [of api_result demo_world "''podnapisi''" "''en''" 1 2 builtin_int
        ?own "''key''" Map.empty "''/videos''" foreign_result]
    by (simp add: foreign_result_def)
  from 1 2 3 4 5 6 show ?thesis by blast
qed

theorem foreign_result_downloaded:
  "provider foreign_result = ''Subliminal (tvsubtitles)'' \<and>
   OpenSubtitlesProvider_download builtin_int ''key'' demo_world Map.empty foreign_result ''/videos''
     = ([\<lparr>parent = ''/videos'', name = ''subtitle.srt''\<rparr> \<mapsto> srt_payload],
        Some ''/videos/subtitle.srt'')"
proof -
  have u: "download_url foreign_result = JStr ''7001''" by (simp add: foreign_result_def)
  have p: "post_download demo_world 7001
      = Returned \<lparr>status_code = 200,
                  json_body = Returned (JObj [(''link'', JStr ''https://dl.example/7001'')]),
                  content = []\<rparr>"
    by (simp add: demo_world_def)
  have g: "get_link demo_world (JStr ''https://dl.example/7001'')
      = Returned \<lparr>status_code = 200, json_body = Raised, content = srt_payload\<rparr>"
    by (simp add: get_link_def demo_world_def)
  have o: "open_wb demo_world Map.empty ''/videos/subtitle.srt'' srt_payload
      = Returned [\<lparr>parent = ''/videos'', name = ''subtitle.srt''\<rparr> \<mapsto> srt_payload]"
    by (simp add: open_wb_def os_path_examples demo_world_def)
  have "OpenSubtitlesProvider_download builtin_int ''key'' demo_world Map.empty foreign_result
      ''/videos''
     = ([\<lparr>parent = ''/videos'', name = ''subtitle.srt''\<rparr> \<mapsto> srt_payload],
        Some ''/videos/subtitle.srt'')"
    by (simp add: OpenSubtitlesProvider_download_def u builtin_int_examples p g o
        os_path_examples Let_def)
  then show ?thesis by (simp add: foreign_result_def)
qed

subsection \<open>Batch mode (main.py, \<open>_do_download_all\<close>)\<close>

text \<open>
  The searches the batch calls. \<open>build_search_query name\<close> stands for
  \<open>parse_video_filename(video_name)\<close> followed by \<open>build_search_query(info)\<close>: the query
  with the season and episode hints, or an exception of the parser. The three search
  methods catch their own exceptions and return lists.
\<close>

record searches =
  build_search_query :: "string \<Rightarrow> (string \<times> int option \<times> int option) io"
  search_by_hash :: "string \<Rightarrow> subtitle list"
  search_by_query :: "string \<times> int option \<times> int option \<Rightarrow> subtitle list"
  search_for_video :: "path \<Rightarrow> subtitle list"

text \<open>
  The body of the \<open>try\<close> block for one video: \<open>Raised\<close> when an exception reaches the
  \<open>except Exception\<close> of the loop, otherwise the file system and whether the subtitle file
  was written (the statement \<open>downloaded += 1\<close> follows the write).
\<close>

definition process_video ::
  "world \<Rightarrow> searches \<Rightarrow> zip_library \<Rightarrow> filesystem \<Rightarrow> path \<Rightarrow> (filesystem \<times> bool) io" where
  "process_video w sr ZipFile fs video_path =
     (let file_hash = get_file_hash (fs video_path) in
      case build_search_query sr (name video_path) of
        Raised \<Rightarrow> Raised
      | Returned query \<Rightarrow>
          (case snd (search_stages (OPENSUBTITLES_API_KEY w) (SUBLIMINAL_AVAILABLE w) file_hash
                       (search_by_hash sr) (search_by_query sr query)
                       (search_for_video sr video_path)) of
             [] \<Rightarrow> Returned (fs, False)
           | sub # _ \<Rightarrow>
               (case fetch_content_batch w sub of
                  Raised \<Rightarrow> Raised
                | Returned None \<Rightarrow> Returned (fs, False)
                | Returned (Some c) \<Rightarrow>
                    if c = [] then Returned (fs, False)
                    else (case persist w ZipFile fs video_path sub c of
                            Raised \<Rightarrow> Raised
                          | Returned fs' \<Rightarrow> Returned (fs', True)))))"

datatype outcome = Written | NoSubtitle | Failed

text \<open>
  The loop. Its state is the file system, the counter \<open>downloaded\<close> and, as a record of
  what the loop did, the videos it processed with the outcome of each.
\<close>

record batch =
  files :: filesystem
  downloaded :: nat
  processed :: "(path \<times> outcome) list"

definition batch_step :: "world \<Rightarrow> searches \<Rightarrow> zip_library \<Rightarrow> batch \<Rightarrow> path \<Rightarrow> batch" where
  "batch_step w sr ZipFile st video_path =
     (case process_video w sr ZipFile (files st) video_path of
        Raised \<Rightarrow> st\<lparr>processed := processed st @ [(video_path, Failed)]\<rparr>
      | Returned (fs', written) \<Rightarrow>
          if written
          then \<lparr>files = fs', downloaded = downloaded st + 1,
                processed = processed st @ [(video_path, Written)]\<rparr>
          else st\<lparr>processed := processed st @ [(video_path, NoSubtitle)]\<rparr>)"

fun batch_loop :: "world \<Rightarrow> searches \<Rightarrow> zip_library \<Rightarrow> path list \<Rightarrow> batch \<Rightarrow> batch" where
  "batch_loop w sr ZipFile [] st = st"
| "batch_loop w sr ZipFile (video_path # videos) st =
     batch_loop w sr ZipFile videos (batch_step w sr ZipFile st video_path)"

definition do_download_all ::
  "world \<Rightarrow> searches \<Rightarrow> zip_library \<Rightarrow> filesystem \<Rightarrow> path list \<Rightarrow> batch" where
  "do_download_all w sr ZipFile fs videos =
     batch_loop w sr ZipFile videos \<lparr>files = fs, downloaded = 0, processed = []\<rparr>"

text \<open>The outcome of processing one video on a given file system.\<close>

definition outcome_of :: "(filesystem \<times> bool) io \<Rightarrow> outcome" where
  "outcome_of r =
     (case r of Raised \<Rightarrow> Failed | Returned (_, written) \<Rightarrow> if written then Written else NoSubtitle)"

text \<open>The number of videos recorded as written.\<close>

definition written_count :: "(path \<times> outcome) list \<Rightarrow> nat" where
  "written_count entries = length (filter (\<lambda>e. snd e = Written) entries)"

text \<open>The list \<open>results\<close> after the three search stages of one video, and the path
  \<open>video.parent / sub_name\<close> of its subtitle file.\<close>

abbreviation results_for ::
  "world \<Rightarrow> searches \<Rightarrow> filesystem \<Rightarrow> path \<Rightarrow> string \<times> int option \<times> int option
     \<Rightarrow> subtitle list" where
  "results_for w sr fs video_path query \<equiv>
     snd (search_stages (OPENSUBTITLES_API_KEY w) (SUBLIMINAL_AVAILABLE w)
            (get_file_hash (fs video_path))
            (search_by_hash sr) (search_by_query sr query) (search_for_video sr video_path))"

abbreviation sub_path_for :: "path \<Rightarrow> subtitle \<Rightarrow> path" where
  "sub_path_for video_path sub \<equiv> joinpath (parent video_path) (sub_name_for video_path sub)"

text \<open>
  Three videos for an example: the API has a subtitle for each, and the download link of the
  second one makes \<open>requests.get\<close> raise.
\<close>

definition batch_world :: world where
  "batch_world =
     demo_world\<lparr>post_download := (\<lambda>file_id.
        if file_id = 7001 \<or> file_id = 7002
        then Returned \<lparr>status_code = 200,
                        json_body = Returned (JObj [(''link'',
                          JStr (if file_id = 7001 then ''https://dl.example/7001''
                                else ''https://unreachable.example/7002''))]),
                        content = []\<rparr>
        else Returned \<lparr>status_code = 404, json_body = Raised, content = []\<rparr>)\<rparr>"

definition batch_searches :: searches where
  "batch_searches =
     \<lparr>build_search_query = (\<lambda>video_name. Returned (video_name, None, None)),
      search_by_hash = (\<lambda>h. []),
      search_by_query = (\<lambda>q. if fst q = ''b.mkv'' then [api_result\<lparr>sub_files := [Some 7002]\<rparr>]
                              else [api_result]),
      search_for_video = (\<lambda>p. [])\<rparr>"

definition video_a :: path where "video_a = \<lparr>parent = ''/videos'', name = ''a.mkv''\<rparr>"
definition video_b :: path where "video_b = \<lparr>parent = ''/videos'', name = ''b.mkv''\<rparr>"
definition video_c :: path where "video_c = \<lparr>parent = ''/videos'', name = ''c.mkv''\<rparr>"

lemma batch_step_processed:
  "processed (batch_step w sr Z st v)
     = processed st @ [(v, outcome_of (process_video w sr Z (files st) v))]"
  by (simp add: batch_step_def outcome_of_def split: io.splits prod.splits)

lemma batch_step_downloaded:
  "downloaded (batch_step w sr Z st v)
     = downloaded st + (if outcome_of (process_video w sr Z (files st) v) = Written then 1 else 0)"
  by (simp add: batch_step_def outcome_of_def split: io.splits prod.splits)

lemma batch_loop_append:
  "batch_loop w sr Z (xs @ ys) st = batch_loop w sr Z ys (batch_loop w sr Z xs st)"
  by (induction xs arbitrary: st) simp_all

lemma batch_loop_videos:
  "map fst (processed (batch_loop w sr Z vs st)) = map fst (processed st) @ vs"
  by (induction vs arbitrary: st) (simp_all add: batch_step_processed)

lemma batch_loop_length:
  "length (processed (batch_loop w sr Z vs st)) = length (processed st) + length vs"
  by (induction vs arbitrary: st) (simp_all add: batch_step_processed)

lemma written_count_snoc:
  "written_count (es @ [(v, x)]) = written_count es + (if x = Written then 1 else 0)"
  by (simp add: written_count_def)

lemma batch_loop_count:
  "downloaded (batch_loop w sr Z vs st) + written_count (processed st)
     = downloaded st + written_count (processed (batch_loop w sr Z vs st))"
proof (induction vs arbitrary: st)
  case Nil
  show ?case by simp
next
  case (Cons v vs)
  let ?st1 = "batch_step w sr Z st v"
  have "downloaded (batch_loop w sr Z vs ?st1) + written_count (processed ?st1)
     = downloaded ?st1 + written_count (processed (batch_loop w sr Z vs ?st1))"
    by (rule Cons.IH)
  moreover have "written_count (processed ?st1) + downloaded st
     = written_count (processed st) + downloaded ?st1"
    unfolding batch_step_processed batch_step_downloaded written_count_snoc by simp
  ultimately show ?case
    unfolding batch_loop.simps by linarith
qed

lemma batch_loop_prefix:
  "prefix (processed st) (processed (batch_loop w sr Z vs st))"
proof (induction vs arbitrary: st)
  case Nil
  show ?case by simp
next
  case (Cons v vs)
  let ?st1 = "batch_step w sr Z st v"
  have "prefix (processed st) (processed ?st1)"
    unfolding batch_step_processed by simp
  moreover have "prefix (processed ?st1) (processed (batch_loop w sr Z vs ?st1))"
    by (rule Cons.IH)
  ultimately show ?case
    unfolding batch_loop.simps by (rule prefix_order.trans)
qed

lemma prefix_nth: "prefix xs ys \<Longrightarrow> i < length xs \<Longrightarrow> ys ! i = xs ! i"
  by (auto simp: prefix_def nth_append)

lemma batch_loop_entry:
  assumes "i < length vs"
  shows "processed (batch_loop w sr Z vs st) ! (length (processed st) + i)
           = (vs ! i, outcome_of (process_video w sr Z
                (files (batch_loop w sr Z (take i vs) st)) (vs ! i)))"
proof -
  let ?pre = "batch_loop w sr Z (take i vs) st"
  let ?mid = "batch_step w sr Z ?pre (vs ! i)"
  let ?e = "(vs ! i, outcome_of (process_video w sr Z (files ?pre) (vs ! i)))"
  have split: "take i vs @ (vs ! i) # drop (Suc i) vs = vs"
    using assms by (rule id_take_nth_drop [symmetric])
  have "batch_loop w sr Z (take i vs @ (vs ! i) # drop (Suc i) vs) st
      = batch_loop w sr Z (drop (Suc i) vs) ?mid"
    unfolding batch_loop_append batch_loop.simps ..
  then have whole: "batch_loop w sr Z vs st = batch_loop w sr Z (drop (Suc i) vs) ?mid"
    unfolding split .
  have len: "length (processed ?pre) = length (processed st) + i"
    unfolding batch_loop_length using assms by simp
  have mid: "processed ?mid = processed ?pre @ [?e]"
    by (rule batch_step_processed)
  have "processed (batch_loop w sr Z (drop (Suc i) vs) ?mid) ! (length (processed st) + i)
      = processed ?mid ! (length (processed st) + i)"
    by (rule prefix_nth [OF batch_loop_prefix]) (simp add: mid len)
  also have "\<dots> = ?e"
    unfolding mid using len by (simp add: nth_append)
  finally show ?thesis
    unfolding whole .
qed

text \<open>
  What the body of the \<open>try\<close> block does to the file system. It reports a written file
  exactly when the query was built, the first search result gave non-empty content and the
  subtitle path could be written; the file system is then the old one with the extracted
  content at that path. When it reports nothing written, the file system is the old one.
\<close>

lemma process_video_written:
  assumes "process_video w sr Z fs v = Returned (fs', True)"
  shows "\<exists>query sub rest c.
           build_search_query sr (name v) = Returned query \<and>
           results_for w sr fs v query = sub # rest \<and>
           fetch_content_batch w sub = Returned (Some c) \<and> c \<noteq> [] \<and>
           writable w (sub_path_for v sub) \<and>
           fs' = fs(sub_path_for v sub \<mapsto> extract_subtitle_content Z c)"
proof -
  from assms obtain query where q: "build_search_query sr (name v) = Returned query"
    by (cases "build_search_query sr (name v)") (simp_all add: process_video_def)
  from assms q obtain sub rest where r: "results_for w sr fs v query = sub # rest"
    by (cases "results_for w sr fs v query") (simp_all add: process_video_def)
  from assms q r obtain c where f: "fetch_content_batch w sub = Returned (Some c)"
    by (cases "fetch_content_batch w sub")
      (auto simp: process_video_def split: option.splits)
  from assms q r f have n: "c \<noteq> []"
    by (auto simp: process_video_def split: if_splits)
  from assms q r f n have p: "persist w Z fs v sub c = Returned fs'"
    by (cases "persist w Z fs v sub c") (simp_all add: process_video_def)
  then have wr: "writable w (sub_path_for v sub)"
    by (simp add: persist_def Let_def split: if_splits)
  from p have "fs' = fs(sub_path_for v sub \<mapsto> extract_subtitle_content Z c)"
    by (rule persist_written)
  with q r f n wr show ?thesis by blast
qed

lemma process_video_writes:
  assumes "build_search_query sr (name v) = Returned query"
    and "results_for w sr fs v query = sub # rest"
    and "fetch_content_batch w sub = Returned (Some c)" and "c \<noteq> []"
    and "writable w (sub_path_for v sub)"
  shows "process_video w sr Z fs v
     = Returned (fs(sub_path_for v sub \<mapsto> extract_subtitle_content Z c), True)"
  using assms by (simp add: process_video_def persist_def Let_def)

lemma process_video_unwritten:
  assumes "process_video w sr Z fs v = Returned (fs', False)"
  shows "fs' = fs"
  using assms
  by (auto simp: process_video_def Let_def split: io.splits list.splits option.splits if_splits)

lemma outcome_written:
  "(outcome_of r = Written) = (\<exists>fs'. r = Returned (fs', True))"
  by (cases r) (auto simp: outcome_of_def split: if_splits)

lemma batch_step_files:
  "files (batch_step w sr Z st v)
     = (case process_video w sr Z (files st) v of
          Raised \<Rightarrow> files st
        | Returned (fs', written) \<Rightarrow> if written then fs' else files st)"
  by (simp add: batch_step_def split: io.splits prod.splits)

lemma batch_step_written:
  assumes "process_video w sr Z (files st) v = Returned (fs', True)"
  shows "files (batch_step w sr Z st v) = fs'"
  using assms by (simp add: batch_step_files)

lemma batch_step_unwritten:
  assumes "outcome_of (process_video w sr Z (files st) v) \<noteq> Written"
  shows "files (batch_step w sr Z st v) = files st"
  using assms
  by (cases "process_video w sr Z (files st) v") (auto simp: batch_step_files outcome_of_def)

text \<open>No step of the loop removes a file.\<close>

lemma batch_step_dom: "dom (files st) \<subseteq> dom (files (batch_step w sr Z st v))"
proof (cases "outcome_of (process_video w sr Z (files st) v) = Written")
  case True
  then obtain fs' where r: "process_video w sr Z (files st) v = Returned (fs', True)"
    unfolding outcome_written by blast
  from process_video_written [OF r] obtain p x where "fs' = (files st)(p \<mapsto> x)" by blast
  then show ?thesis
    unfolding batch_step_written [OF r] by auto
next
  case False
  then show ?thesis by (simp add: batch_step_unwritten)
qed

lemma batch_loop_dom: "dom (files st) \<subseteq> dom (files (batch_loop w sr Z vs st))"
proof (induction vs arbitrary: st)
  case Nil
  show ?case by simp
next
  case (Cons v vs)
  have "dom (files st) \<subseteq> dom (files (batch_step w sr Z st v))" by (rule batch_step_dom)
  also have "\<dots> \<subseteq> dom (files (batch_loop w sr Z vs (batch_step w sr Z st v)))"
    by (rule Cons.IH)
  finally show ?case by simp
qed

lemma batch_loop_take_Suc:
  assumes "i < length vs"
  shows "batch_loop w sr Z (take (Suc i) vs) st
     = batch_step w sr Z (batch_loop w sr Z (take i vs) st) (vs ! i)"
  using assms by (simp add: take_Suc_conv_app_nth batch_loop_append)

lemma batch_loop_rest:
  "batch_loop w sr Z vs st = batch_loop w sr Z (drop k vs) (batch_loop w sr Z (take k vs) st)"
  using batch_loop_append [of w sr Z "take k vs" "drop k vs" st] by simp

lemma get_file_hash_missing: "get_file_hash None = None"
  by (simp add: get_file_hash_def)

lemma batch_world_links:
  "api_download batch_world 7001 = JStr ''https://dl.example/7001''"
  "api_download batch_world 7002 = JStr ''https://unreachable.example/7002''"
  by (simp_all add: api_download_def batch_world_def)

lemma batch_world_get:
  "get_link batch_world (JStr ''https://dl.example/7001'')
     = Returned \<lparr>status_code = 200, json_body = Raised, content = srt_payload\<rparr>"
  "get_link batch_world (JStr ''https://unreachable.example/7002'') = Raised"
  by (simp_all add: get_link_def batch_world_def demo_world_def)

lemma batch_world_flags:
  "OPENSUBTITLES_API_KEY batch_world" "SUBLIMINAL_AVAILABLE batch_world"
  "writable batch_world p = (parent p = ''/videos'')"
  by (simp_all add: batch_world_def demo_world_def)

lemma batch_fetch:
  "fetch_content_batch batch_world api_result = Returned (Some srt_payload)"
  "fetch_content_batch batch_world (api_result\<lparr>sub_files := [Some 7002]\<rparr>) = Raised"
proof -
  have pn: "provider_name api_result = ''OpenSubtitles''"
    "provider_name (api_result\<lparr>sub_files := [Some 7002]\<rparr>) = ''OpenSubtitles''"
    by (simp_all add: provider_name_def api_result_def)
  have f: "sub_files api_result = [Some 7001]" by (simp add: api_result_def)
  show "fetch_content_batch batch_world api_result = Returned (Some srt_payload)"
    by (simp add: fetch_content_batch_def pn default_provider_not_aggregator api_two_step_def f
        batch_world_links batch_world_get)
  show "fetch_content_batch batch_world (api_result\<lparr>sub_files := [Some 7002]\<rparr>) = Raised"
    by (simp add: fetch_content_batch_def pn default_provider_not_aggregator api_two_step_def
        batch_world_links batch_world_get)
qed

lemma stages_without_hash:
  "snd (search_stages True True None bh bq bv) = (if bq = [] then bv else bq)"
  by (simp add: search_stages_results query_results_eq hash_results_eq)

lemma process_video_ok:
  assumes "fs \<lparr>parent = ''/videos'', name = n\<rparr> = None" "n \<noteq> ''b.mkv''"
  shows "process_video batch_world batch_searches sample_zipfile fs \<lparr>parent = ''/videos'', name = n\<rparr>
     = Returned (fs(\<lparr>parent = ''/videos'', name = stem \<lparr>parent = ''/videos'', name = n\<rparr> @ ''.es.srt''\<rparr>
                    \<mapsto> srt_payload), True)"
proof -
  have e: "extract_subtitle_content sample_zipfile srt_payload = srt_payload"
    by (simp add: extract_subtitle_content_def sample_signatures)
  have n: "srt_payload \<noteq> []" by (simp add: srt_payload_def)
  have l: "sub_language api_result = Some ''es''" by (simp add: api_result_def)
  show ?thesis
    using assms
    by (simp add: process_video_def get_file_hash_missing batch_world_flags batch_searches_def
        stages_without_hash batch_fetch n persist_def e
        sub_name_for_def l joinpath_def)
qed

lemma process_video_raises:
  assumes "fs video_b = None"
  shows "process_video batch_world batch_searches sample_zipfile fs video_b = Raised"
  using assms
  by (simp add: process_video_def get_file_hash_missing batch_world_flags batch_searches_def
      stages_without_hash batch_fetch video_b_def)

lemma stems_abc:
  "stem \<lparr>parent = ''/videos'', name = ''a.mkv''\<rparr> = ''a''"
  "stem \<lparr>parent = ''/videos'', name = ''c.mkv''\<rparr> = ''c''"
  by (simp_all add: stem_def rfind_dot_def)

lemma example_batch:
  "do_download_all batch_world batch_searches sample_zipfile Map.empty [video_a, video_b, video_c]
     = \<lparr>files = [\<lparr>parent = ''/videos'', name = ''a.es.srt''\<rparr> \<mapsto> srt_payload,
                 \<lparr>parent = ''/videos'', name = ''c.es.srt''\<rparr> \<mapsto> srt_payload],
        downloaded = 2,
        processed = [(video_a, Written), (video_b, Failed), (video_c, Written)]\<rparr>"
proof -
  let ?fs1 = "[\<lparr>parent = ''/videos'', name = ''a.es.srt''\<rparr> \<mapsto> srt_payload]"
  let ?st0 = "\<lparr>files = Map.empty, downloaded = 0, processed = []\<rparr>"
  let ?st1 = "\<lparr>files = ?fs1, downloaded = 1, processed = [(video_a, Written)]\<rparr>"
  let ?st2 = "\<lparr>files = ?fs1, downloaded = 1, processed = [(video_a, Written), (video_b, Failed)]\<rparr>"
  have a: "process_video batch_world batch_searches sample_zipfile Map.empty video_a
      = Returned (?fs1, True)"
    unfolding video_a_def
    by (subst process_video_ok) (simp_all add: stems_abc)
  have b: "process_video batch_world batch_searches sample_zipfile ?fs1 video_b = Raised"
    by (rule process_video_raises) (simp add: video_b_def)
  have c: "process_video batch_world batch_searches sample_zipfile ?fs1 video_c
      = Returned (?fs1(\<lparr>parent = ''/videos'', name = ''c.es.srt''\<rparr> \<mapsto> srt_payload), True)"
    unfolding video_c_def
    by (subst process_video_ok) (simp_all add: stems_abc)
  have s1: "batch_step batch_world batch_searches sample_zipfile ?st0 video_a = ?st1"
    by (simp add: batch_step_def a)
  have s2: "batch_step batch_world batch_searches sample_zipfile ?st1 video_b = ?st2"
    by (simp add: batch_step_def b)
  have s3: "batch_step batch_world batch_searches sample_zipfile ?st2 video_c
      = \<lparr>files = ?fs1(\<lparr>parent = ''/videos'', name = ''c.es.srt''\<rparr> \<mapsto> srt_payload),
         downloaded = 2,
         processed = [(video_a, Written), (video_b, Failed), (video_c, Written)]\<rparr>"
    by (simp add: batch_step_def c)
  show ?thesis
    unfolding do_download_all_def batch_loop.simps s1 s2 s3 ..
qed

text \<open>
  C7. The batch processes the videos in the order of the list, video \<open>i\<close> on the file
  system the first \<open>i\<close> videos left. A video whose processing raises is recorded as failed
  and the loop goes on with the next one. A video is recorded as written exactly when its
  query was built, its first search result gave non-empty content and the subtitle path could
  be written; the file system after that video is then the one before it with the extracted
  content at \<open><stem>.<language>.srt\<close> beside the video, and that file is still present when
  the batch ends. A video not recorded as written leaves the file system as it was. The final
  count is the number of videos recorded as written.
\<close>

theorem batch_resilience:
  "map fst (processed (do_download_all w sr Z fs videos)) = videos \<and>
   downloaded (do_download_all w sr Z fs videos)
     = written_count (processed (do_download_all w sr Z fs videos)) \<and>
   (\<forall>i < length videos.
      let v = videos ! i;
          before = files (do_download_all w sr Z fs (take i videos));
          after = files (do_download_all w sr Z fs (take (Suc i) videos));
          entry = processed (do_download_all w sr Z fs videos) ! i
      in entry = (v, outcome_of (process_video w sr Z before v)) \<and>
         (snd entry = Failed) = (process_video w sr Z before v = Raised) \<and>
         (snd entry = Written) =
           (\<exists>query sub rest c.
              build_search_query sr (name v) = Returned query \<and>
              results_for w sr before v query = sub # rest \<and>
              fetch_content_batch w sub = Returned (Some c) \<and> c \<noteq> [] \<and>
              writable w (sub_path_for v sub)) \<and>
         (\<forall>query sub rest c.
              build_search_query sr (name v) = Returned query \<and>
              results_for w sr before v query = sub # rest \<and>
              fetch_content_batch w sub = Returned (Some c) \<and> c \<noteq> [] \<and>
              writable w (sub_path_for v sub) \<longrightarrow>
                after = before(sub_path_for v sub \<mapsto> extract_subtitle_content Z c) \<and>
                sub_path_for v sub \<in> dom (files (do_download_all w sr Z fs videos))) \<and>
         (snd entry \<noteq> Written \<longrightarrow> after = before))"
proof -
  let ?st = "\<lparr>files = fs, downloaded = 0, processed = []\<rparr>"
  let ?S = "\<lambda>vs. batch_loop w sr Z vs ?st"
  have 1: "map fst (processed (?S videos)) = videos"
    unfolding batch_loop_videos by simp
  have 2: "downloaded (?S videos) = written_count (processed (?S videos))"
    using batch_loop_count [of w sr Z videos ?st] by (simp add: written_count_def)
  have 3: "let v = videos ! i;
          before = files (?S (take i videos));
          after = files (?S (take (Suc i) videos));
          entry = processed (?S videos) ! i
      in entry = (v, outcome_of (process_video w sr Z before v)) \<and>
         (snd entry = Failed) = (process_video w sr Z before v = Raised) \<and>
         (snd entry = Written) =
           (\<exists>query sub rest c.
              build_search_query sr (name v) = Returned query \<and>
              results_for w sr before v query = sub # rest \<and>
              fetch_content_batch w sub = Returned (Some c) \<and> c \<noteq> [] \<and>
              writable w (sub_path_for v sub)) \<and>
         (\<forall>query sub rest c.
              build_search_query sr (name v) = Returned query \<and>
              results_for w sr before v query = sub # rest \<and>
              fetch_content_batch w sub = Returned (Some c) \<and> c \<noteq> [] \<and>
              writable w (sub_path_for v sub) \<longrightarrow>
                after = before(sub_path_for v sub \<mapsto> extract_subtitle_content Z c) \<and>
                sub_path_for v sub \<in> dom (files (?S videos))) \<and>
         (snd entry \<noteq> Written \<longrightarrow> after = before)"
    if i: "i < length videos" for i
  proof -
    let ?v = "videos ! i"
    let ?pre = "?S (take i videos)"
    let ?post = "?S (take (Suc i) videos)"
    let ?r = "process_video w sr Z (files ?pre) ?v"
    have post: "?post = batch_step w sr Z ?pre ?v"
      using i by (rule batch_loop_take_Suc)
    have entry: "processed (?S videos) ! i = (?v, outcome_of ?r)"
      using batch_loop_entry [OF i, of w sr Z ?st] by simp
    have failed: "(outcome_of ?r = Failed) = (?r = Raised)"
      by (cases ?r) (auto simp: outcome_of_def split: if_splits)
    have final: "dom (files ?post) \<subseteq> dom (files (?S videos))"
      using batch_loop_dom [of ?post w sr Z "drop (Suc i) videos"]
        batch_loop_rest [of w sr Z videos ?st "Suc i"]
      by simp
    have written: "(outcome_of ?r = Written) =
           (\<exists>query sub rest c.
              build_search_query sr (name ?v) = Returned query \<and>
              results_for w sr (files ?pre) ?v query = sub # rest \<and>
              fetch_content_batch w sub = Returned (Some c) \<and> c \<noteq> [] \<and>
              writable w (sub_path_for ?v sub))"
    proof
      assume "outcome_of ?r = Written"
      then obtain fs' where "?r = Returned (fs', True)"
        unfolding outcome_written by blast
      from process_video_written [OF this] show "\<exists>query sub rest c.
              build_search_query sr (name ?v) = Returned query \<and>
              results_for w sr (files ?pre) ?v query = sub # rest \<and>
              fetch_content_batch w sub = Returned (Some c) \<and> c \<noteq> [] \<and>
              writable w (sub_path_for ?v sub)"
        by blast
    next
      assume "\<exists>query sub rest c.
              build_search_query sr (name ?v) = Returned query \<and>
              results_for w sr (files ?pre) ?v query = sub # rest \<and>
              fetch_content_batch w sub = Returned (Some c) \<and> c \<noteq> [] \<and>
              writable w (sub_path_for ?v sub)"
      then obtain query sub rest c where
        "build_search_query sr (name ?v) = Returned query"
        "results_for w sr (files ?pre) ?v query = sub # rest"
        "fetch_content_batch w sub = Returned (Some c)" "c \<noteq> []"
        "writable w (sub_path_for ?v sub)"
        by blast
      then have "?r = Returned ((files ?pre)(sub_path_for ?v sub \<mapsto> extract_subtitle_content Z c), True)"
        by (rule process_video_writes)
      then show "outcome_of ?r = Written"
        unfolding outcome_written by blast
    qed
    have writes: "files ?post = (files ?pre)(sub_path_for ?v sub \<mapsto> extract_subtitle_content Z c) \<and>
        sub_path_for ?v sub \<in> dom (files (?S videos))"
      if "build_search_query sr (name ?v) = Returned query \<and>
          results_for w sr (files ?pre) ?v query = sub # rest \<and>
          fetch_content_batch w sub = Returned (Some c) \<and> c \<noteq> [] \<and>
          writable w (sub_path_for ?v sub)" for query sub rest c
    proof -
      from that have
        "build_search_query sr (name ?v) = Returned query"
        "results_for w sr (files ?pre) ?v query = sub # rest"
        "fetch_content_batch w sub = Returned (Some c)" "c \<noteq> []"
        "writable w (sub_path_for ?v sub)"
        by simp_all
      then have "?r = Returned ((files ?pre)(sub_path_for ?v sub \<mapsto> extract_subtitle_content Z c), True)"
        by (rule process_video_writes)
      then have f: "files ?post = (files ?pre)(sub_path_for ?v sub \<mapsto> extract_subtitle_content Z c)"
        unfolding post by (rule batch_step_written)
      then have "sub_path_for ?v sub \<in> dom (files ?post)" by simp
      with final f show ?thesis by blast
    qed
    have unwritten: "outcome_of ?r \<noteq> Written \<longrightarrow> files ?post = files ?pre"
      unfolding post by (rule impI) (rule batch_step_unwritten)
    show ?thesis
      unfolding Let_def entry snd_conv
      using failed written writes unwritten by blast
  qed
  from 1 2 3 show ?thesis
    unfolding do_download_all_def by blast
qed

theorem batch_resilience_witness:
  "do_download_all batch_world batch_searches sample_zipfile Map.empty [video_a, video_b, video_c]
     = \<lparr>files = [\<lparr>parent = ''/videos'', name = ''a.es.srt''\<rparr> \<mapsto> srt_payload,
                 \<lparr>parent = ''/videos'', name = ''c.es.srt''\<rparr> \<mapsto> srt_payload],
        downloaded = 2,
        processed = [(video_a, Written), (video_b, Failed), (video_c, Written)]\<rparr> \<and>
   files (do_download_all batch_world batch_searches sample_zipfile Map.empty
            (take (Suc 0) [video_a, video_b, video_c]))
     = Map.empty(sub_path_for video_a api_result \<mapsto> extract_subtitle_content sample_zipfile srt_payload) \<and>
   sub_path_for video_a api_result
     \<in> dom (files (do_download_all batch_world batch_searches sample_zipfile Map.empty
                     [video_a, video_b, video_c])) \<and>
   process_video batch_world batch_searches sample_zipfile
       (files (do_download_all batch_world batch_searches sample_zipfile Map.empty
          (take 1 [video_a, video_b, video_c]))) video_b = Raised \<and>
   files (do_download_all batch_world batch_searches sample_zipfile Map.empty
            (take 2 [video_a, video_b, video_c]))
     = files (do_download_all batch_world batch_searches sample_zipfile Map.empty
            (take 1 [video_a, video_b, video_c]))"
proof -
  let ?vs = "[video_a, video_b, video_c]"
  let ?run = "do_download_all batch_world batch_searches sample_zipfile Map.empty"
  note r = batch_resilience [of batch_world batch_searches sample_zipfile Map.empty ?vs]
  have empty: "?run (take 0 ?vs) = \<lparr>files = Map.empty, downloaded = 0, processed = []\<rparr>"
    by (simp add: do_download_all_def)
  have q: "build_search_query batch_searches (name video_a) = Returned (''a.mkv'', None, None)"
    by (simp add: batch_searches_def video_a_def)
  have s: "results_for batch_world batch_searches Map.empty video_a (''a.mkv'', None, None)
      = api_result # []"
    by (simp add: get_file_hash_missing batch_world_flags stages_without_hash batch_searches_def)
  have n: "srt_payload \<noteq> []" by (simp add: srt_payload_def)
  have wr: "writable batch_world (sub_path_for video_a api_result)"
    by (simp add: batch_world_flags joinpath_def video_a_def)
  have "(0::nat) < length ?vs" by simp
  with r have "\<forall>query sub rest c.
      build_search_query batch_searches (name (?vs ! 0)) = Returned query \<and>
      results_for batch_world batch_searches (files (?run (take 0 ?vs))) (?vs ! 0) query = sub # rest \<and>
      fetch_content_batch batch_world sub = Returned (Some c) \<and> c \<noteq> [] \<and>
      writable batch_world (sub_path_for (?vs ! 0) sub) \<longrightarrow>
        files (?run (take (Suc 0) ?vs))
          = (files (?run (take 0 ?vs)))(sub_path_for (?vs ! 0) sub \<mapsto> extract_subtitle_content sample_zipfile c) \<and>
        sub_path_for (?vs ! 0) sub \<in> dom (files (?run ?vs))"
    unfolding Let_def by blast
  then have a: "files (?run (take (Suc 0) ?vs))
          = Map.empty(sub_path_for video_a api_result \<mapsto> extract_subtitle_content sample_zipfile srt_payload) \<and>
        sub_path_for video_a api_result \<in> dom (files (?run ?vs))"
    unfolding empty using q s batch_fetch(1) n wr by simp
  have "(1::nat) < length ?vs" by simp
  with r have "(snd (processed (?run ?vs) ! 1) = Failed) =
        (process_video batch_world batch_searches sample_zipfile (files (?run (take 1 ?vs))) (?vs ! 1) = Raised) \<and>
      (snd (processed (?run ?vs) ! 1) \<noteq> Written \<longrightarrow>
         files (?run (take (Suc 1) ?vs)) = files (?run (take 1 ?vs)))"
    unfolding Let_def by blast
  then have b: "process_video batch_world batch_searches sample_zipfile (files (?run (take 1 ?vs))) video_b = Raised \<and>
      files (?run (take 2 ?vs)) = files (?run (take 1 ?vs))"
    unfolding example_batch by (simp add: numeral_2_eq_2)
  from example_batch a b show ?thesis by blast
qed

subsection \<open>Renaming a subtitle after its video (utils/file_utils.py, \<open>rename_subtitle\<close>)\<close>

text \<open>\<open>str(counter)\<close> as the f-string formats it: decimal digits.\<close>

definition dec_char :: "nat \<Rightarrow> char" where
  "dec_char d = ''0123456789'' ! d"

function str_nat :: "nat \<Rightarrow> string" where
  "str_nat n = (if n < 10 then [dec_char n] else str_nat (n div 10) @ [dec_char (n mod 10)])"
  by pat_completeness auto
termination
  by (relation "measure id") auto

declare str_nat.simps [simp del]

text \<open>The names the function tries: first \<open>stem + suffix\<close>, then
  \<open>f"{video.stem}.{counter}{subtitle.suffix}"\<close> for the counter from 1 on.\<close>

definition plain_name :: "path \<Rightarrow> path \<Rightarrow> path" where
  "plain_name subtitle video = joinpath (parent video) (stem video @ suffix_of subtitle)"

definition numbered_name :: "path \<Rightarrow> path \<Rightarrow> nat \<Rightarrow> path" where
  "numbered_name subtitle video counter =
     joinpath (parent video) (stem video @ ''.'' @ str_nat counter @ suffix_of subtitle)"

text \<open>
  The \<open>while new_path.exists()\<close> loop. Nothing in the loop bounds it, so it is a partial
  function: \<open>None\<close> stands for a run that does not end.
\<close>

partial_function (option) rename_loop ::
  "filesystem \<Rightarrow> path \<Rightarrow> path \<Rightarrow> path \<Rightarrow> nat \<Rightarrow> path option" where
  "rename_loop fs subtitle video new_path counter =
     (if fs new_path \<noteq> None
      then rename_loop fs subtitle video (numbered_name subtitle video counter) (counter + 1)
      else Some new_path)"

text \<open>
  \<open>subtitle.rename(new_path)\<close> raises when the subtitle file does not exist; otherwise the
  file's content moves to the new path. The result is the new file system with the returned
  path.
\<close>

definition rename_subtitle :: "filesystem \<Rightarrow> path \<Rightarrow> path \<Rightarrow> (filesystem \<times> path) io option" where
  "rename_subtitle fs subtitle video =
     (case rename_loop fs subtitle video (plain_name subtitle video) 1 of
        None \<Rightarrow> None
      | Some new_path \<Rightarrow>
          (case fs subtitle of
             None \<Rightarrow> Some Raised
           | Some c \<Rightarrow> Some (Returned ((fs(subtitle := None))(new_path \<mapsto> c), new_path))))"

text \<open>Reading a decimal string back.\<close>

definition dec_val :: "char \<Rightarrow> nat" where
  "dec_val c = length (takeWhile (\<lambda>d. d \<noteq> c) ''0123456789'')"

definition dec_value :: "string \<Rightarrow> nat" where
  "dec_value s = foldl (\<lambda>acc c. 10 * acc + dec_val c) 0 s"

text \<open>An example: the plain name and the first numbered name are taken.\<close>

definition movie_video :: path where
  "movie_video = \<lparr>parent = ''/videos'', name = ''Movie.mkv''\<rparr>"

definition fetched_subtitle :: path where
  "fetched_subtitle = \<lparr>parent = ''/downloads'', name = ''sub123.srt''\<rparr>"

definition crowded_fs :: filesystem where
  "crowded_fs =
     [\<lparr>parent = ''/videos'', name = ''Movie.srt''\<rparr> \<mapsto> sub_payload,
      \<lparr>parent = ''/videos'', name = ''Movie.1.srt''\<rparr> \<mapsto> sub_payload,
      fetched_subtitle \<mapsto> srt_payload]"

lemma dec_val_char: "d < 10 \<Longrightarrow> dec_val (dec_char d) = d"
proof -
  assume "d < 10"
  then consider "d = 0" | "d = 1" | "d = 2" | "d = 3" | "d = 4" | "d = 5" | "d = 6" | "d = 7"
    | "d = 8" | "d = 9"
    by atomize_elim arith
  then show ?thesis
    by cases (simp_all add: dec_val_def dec_char_def)
qed

lemma dec_value_snoc: "dec_value (s @ [c]) = 10 * dec_value s + dec_val c"
  by (simp add: dec_value_def)

lemma dec_value_str_nat: "dec_value (str_nat n) = n"
proof (induction n rule: str_nat.induct)
  case (1 n)
  show ?case
  proof (cases "n < 10")
    case True
    then show ?thesis
      by (subst str_nat.simps) (simp add: dec_value_def dec_val_char)
  next
    case False
    have "dec_value (str_nat (n div 10)) = n div 10" using "1.IH" False by blast
    then show ?thesis using False
      by (subst str_nat.simps) (simp add: dec_value_snoc dec_val_char)
  qed
qed

lemma str_nat_inj: "str_nat j = str_nat k \<Longrightarrow> j = k"
  by (metis dec_value_str_nat)

lemma numbered_name_inj: "numbered_name s v j = numbered_name s v k \<Longrightarrow> j = k"
  by (simp add: numbered_name_def joinpath_def str_nat_inj)

lemma free_number_exists:
  assumes "finite (dom fs)"
  shows "\<exists>m\<ge>1. fs (numbered_name s v m) = None"
proof (rule ccontr)
  assume "\<not> (\<exists>m\<ge>1. fs (numbered_name s v m) = None)"
  then have "numbered_name s v ` {1..} \<subseteq> dom fs" by auto
  then have "finite (numbered_name s v ` {1..})"
    using assms by (rule finite_subset)
  moreover have "inj_on (numbered_name s v) {1..}"
    by (rule inj_onI) (rule numbered_name_inj)
  ultimately have "finite {1::nat..}" by (rule finite_imageD)
  then show False by (simp add: infinite_Ici)
qed

lemma rename_loop_finds:
  assumes "fs new_path \<noteq> None" "fs (numbered_name s v m) = None"
    "\<forall>j. c \<le> j \<and> j < m \<longrightarrow> fs (numbered_name s v j) \<noteq> None" "c \<le> m"
  shows "rename_loop fs s v new_path c = Some (numbered_name s v m)"
  using assms
proof (induction "m - c" arbitrary: c new_path)
  case 0
  then have "c = m" by simp
  then show ?case
    using "0.prems"(1,2)
    by (subst rename_loop.simps, simp, subst rename_loop.simps, simp)
next
  case (Suc d)
  then have lt: "c < m" by simp
  then have taken: "fs (numbered_name s v c) \<noteq> None" using Suc.prems(3) by simp
  have "rename_loop fs s v (numbered_name s v c) (c + 1) = Some (numbered_name s v m)"
  proof (rule Suc.hyps(1))
    show "d = m - (c + 1)" using Suc.hyps(2) by simp
    show "fs (numbered_name s v c) \<noteq> None" by (rule taken)
    show "fs (numbered_name s v m) = None" by (rule Suc.prems(2))
    show "\<forall>j. c + 1 \<le> j \<and> j < m \<longrightarrow> fs (numbered_name s v j) \<noteq> None"
      using Suc.prems(3) by simp
    show "c + 1 \<le> m" using lt by simp
  qed
  then show ?case
    using Suc.prems(1) by (subst rename_loop.simps) simp
qed

lemma rename_loop_free: "fs new_path = None \<Longrightarrow> rename_loop fs s v new_path c = Some new_path"
  by (subst rename_loop.simps) simp

lemma rename_keeps:
  "fs new_path = None \<Longrightarrow>
     \<forall>q. q \<noteq> subtitle \<and> fs q \<noteq> None \<longrightarrow> ((fs(subtitle := None))(new_path \<mapsto> c)) q = fs q"
proof (intro allI impI)
  fix q assume free: "fs new_path = None" and q: "q \<noteq> subtitle \<and> fs q \<noteq> None"
  then have "q \<noteq> new_path" by auto
  with q show "((fs(subtitle := None))(new_path \<mapsto> c)) q = fs q" by simp
qed

text \<open>
  C8. On a file system with finitely many files and an existing subtitle file,
  \<open>rename_subtitle\<close> returns; the path it returns did not exist before; it is
  \<open><video-stem><subtitle-extension>\<close> in the video's directory when that name is free and
  otherwise \<open><video-stem>.<k><subtitle-extension>\<close> for the smallest \<open>k \<ge> 1\<close> whose name
  is free; the subtitle's content moves there and every other file keeps its content.
\<close>

theorem rename_never_overwrites:
  "finite (dom fs) \<Longrightarrow> fs subtitle = Some c \<Longrightarrow>
   \<exists>new_path.
     rename_subtitle fs subtitle video
       = Some (Returned ((fs(subtitle := None))(new_path \<mapsto> c), new_path)) \<and>
     fs new_path = None \<and>
     (\<forall>q. q \<noteq> subtitle \<and> fs q \<noteq> None \<longrightarrow>
        ((fs(subtitle := None))(new_path \<mapsto> c)) q = fs q) \<and>
     (fs (plain_name subtitle video) = None \<longrightarrow> new_path = plain_name subtitle video) \<and>
     (fs (plain_name subtitle video) \<noteq> None \<longrightarrow>
        (\<exists>k\<ge>1. new_path = numbered_name subtitle video k \<and>
           (\<forall>j. 1 \<le> j \<and> j < k \<longrightarrow> fs (numbered_name subtitle video j) \<noteq> None)))"
proof -
  assume fin: "finite (dom fs)" and src: "fs subtitle = Some c"
  let ?plain = "plain_name subtitle video"
  let ?num = "numbered_name subtitle video"
  show ?thesis
  proof (cases "fs ?plain = None")
    case True
    then have "rename_loop fs subtitle video ?plain 1 = Some ?plain"
      by (rule rename_loop_free)
    then have r: "rename_subtitle fs subtitle video
        = Some (Returned ((fs(subtitle := None))(?plain \<mapsto> c), ?plain))"
      by (simp add: rename_subtitle_def src del: One_nat_def)
    show ?thesis
    proof (rule exI [of _ ?plain], intro conjI)
      show "rename_subtitle fs subtitle video
        = Some (Returned ((fs(subtitle := None))(?plain \<mapsto> c), ?plain))" by (rule r)
      show "fs ?plain = None" by (rule True)
      show "\<forall>q. q \<noteq> subtitle \<and> fs q \<noteq> None \<longrightarrow>
        ((fs(subtitle := None))(?plain \<mapsto> c)) q = fs q"
        using True by (rule rename_keeps)
      show "fs ?plain = None \<longrightarrow> ?plain = ?plain" by (rule impI) (rule refl)
      show "fs ?plain \<noteq> None \<longrightarrow>
        (\<exists>k\<ge>1. ?plain = ?num k \<and> (\<forall>j. 1 \<le> j \<and> j < k \<longrightarrow> fs (?num j) \<noteq> None))"
        using True by (simp del: One_nat_def)
    qed
  next
    case False
    let ?P = "\<lambda>m. 1 \<le> m \<and> fs (?num m) = None"
    define k where "k = (LEAST m. ?P m)"
    have ex: "\<exists>m. ?P m" using free_number_exists [OF fin, of subtitle video] by (simp del: One_nat_def)
    have k: "?P k" unfolding k_def using ex by (rule LeastI_ex)
    have kpos: "1 \<le> k" using k by (rule conjunct1)
    have kfree: "fs (?num k) = None" using k by (rule conjunct2)
    have least: "\<forall>j. 1 \<le> j \<and> j < k \<longrightarrow> fs (?num j) \<noteq> None"
    proof (intro allI impI)
      fix j assume j: "1 \<le> j \<and> j < k"
      then have "j < (LEAST m. ?P m)" unfolding k_def by (rule conjunct2)
      then have "\<not> ?P j" by (rule not_less_Least)
      with j show "fs (?num j) \<noteq> None" by (simp del: One_nat_def)
    qed
    have "rename_loop fs subtitle video ?plain 1 = Some (?num k)"
    proof (rule rename_loop_finds)
      show "fs ?plain \<noteq> None" by (rule False)
      show "fs (?num k) = None" by (rule kfree)
      show "\<forall>j. 1 \<le> j \<and> j < k \<longrightarrow> fs (?num j) \<noteq> None" by (rule least)
      show "1 \<le> k" by (rule kpos)
    qed
    then have r: "rename_subtitle fs subtitle video
        = Some (Returned ((fs(subtitle := None))(?num k \<mapsto> c), ?num k))"
      by (simp add: rename_subtitle_def src del: One_nat_def)
    show ?thesis
    proof (rule exI [of _ "?num k"], intro conjI)
      show "rename_subtitle fs subtitle video
        = Some (Returned ((fs(subtitle := None))(?num k \<mapsto> c), ?num k))" by (rule r)
      show "fs (?num k) = None" by (rule kfree)
      show "\<forall>q. q \<noteq> subtitle \<and> fs q \<noteq> None \<longrightarrow>
        ((fs(subtitle := None))(?num k \<mapsto> c)) q = fs q"
        using kfree by (rule rename_keeps)
      show "fs ?plain = None \<longrightarrow> ?num k = ?plain"
      proof (rule impI)
        assume "fs ?plain = None"
        with False show "?num k = ?plain" by (rule notE)
      qed
      show "fs ?plain \<noteq> None \<longrightarrow>
        (\<exists>k'\<ge>1. ?num k = ?num k' \<and> (\<forall>j. 1 \<le> j \<and> j < k' \<longrightarrow> fs (?num j) \<noteq> None))"
      proof (rule impI, rule exI [of _ k], intro conjI)
        show "1 \<le> k" by (rule kpos)
        show "?num k = ?num k" by (rule refl)
        show "\<forall>j. 1 \<le> j \<and> j < k \<longrightarrow> fs (?num j) \<noteq> None" by (rule least)
      qed
    qed
  qed
qed

lemma str_nat_small: "str_nat (Suc 0) = ''1''" "str_nat 2 = ''2''"
  by (subst str_nat.simps, simp add: dec_char_def)+

lemma movie_names:
  "plain_name fetched_subtitle movie_video = \<lparr>parent = ''/videos'', name = ''Movie.srt''\<rparr>"
  "numbered_name fetched_subtitle movie_video (Suc 0) = \<lparr>parent = ''/videos'', name = ''Movie.1.srt''\<rparr>"
  "numbered_name fetched_subtitle movie_video 2 = \<lparr>parent = ''/videos'', name = ''Movie.2.srt''\<rparr>"
  by (simp_all add: plain_name_def numbered_name_def joinpath_def str_nat_small stem_def
      suffix_of_def rfind_dot_def movie_video_def fetched_subtitle_def)

lemma crowded_fs_lookup:
  "crowded_fs \<lparr>parent = ''/videos'', name = ''Movie.srt''\<rparr> = Some sub_payload"
  "crowded_fs \<lparr>parent = ''/videos'', name = ''Movie.1.srt''\<rparr> = Some sub_payload"
  "crowded_fs \<lparr>parent = ''/videos'', name = ''Movie.2.srt''\<rparr> = None"
  "crowded_fs fetched_subtitle = Some srt_payload"
  by (simp_all add: crowded_fs_def fetched_subtitle_def)

lemma crowded_rename_loop:
  "rename_loop crowded_fs fetched_subtitle movie_video (plain_name fetched_subtitle movie_video) 1
     = Some \<lparr>parent = ''/videos'', name = ''Movie.2.srt''\<rparr>"
proof -
  have "rename_loop crowded_fs fetched_subtitle movie_video
          (plain_name fetched_subtitle movie_video) 1
      = Some (numbered_name fetched_subtitle movie_video 2)"
  proof (rule rename_loop_finds)
    show "crowded_fs (plain_name fetched_subtitle movie_video) \<noteq> None"
      by (simp add: movie_names crowded_fs_lookup)
    show "crowded_fs (numbered_name fetched_subtitle movie_video 2) = None"
      by (simp add: movie_names crowded_fs_lookup)
    show "\<forall>j. 1 \<le> j \<and> j < 2 \<longrightarrow> crowded_fs (numbered_name fetched_subtitle movie_video j) \<noteq> None"
    proof (intro allI impI)
      fix j :: nat assume "1 \<le> j \<and> j < 2"
      then have "j = 1" by simp
      then show "crowded_fs (numbered_name fetched_subtitle movie_video j) \<noteq> None"
        by (simp add: movie_names crowded_fs_lookup)
    qed
    show "(1::nat) \<le> 2" by simp
  qed
  then show ?thesis by (simp add: movie_names)
qed

theorem rename_never_overwrites_witness:
  "finite (dom crowded_fs) \<and> crowded_fs fetched_subtitle = Some srt_payload \<and>
   rename_subtitle crowded_fs fetched_subtitle movie_video
     = Some (Returned ((crowded_fs(fetched_subtitle := None))
                         (\<lparr>parent = ''/videos'', name = ''Movie.2.srt''\<rparr> \<mapsto> srt_payload),
                       \<lparr>parent = ''/videos'', name = ''Movie.2.srt''\<rparr>)) \<and>
   crowded_fs \<lparr>parent = ''/videos'', name = ''Movie.2.srt''\<rparr> = None"
proof -
  have fin: "finite (dom crowded_fs)" by (simp add: crowded_fs_def)
  have src: "crowded_fs fetched_subtitle = Some srt_payload" by (rule crowded_fs_lookup)
  have run: "rename_subtitle crowded_fs fetched_subtitle movie_video
     = Some (Returned ((crowded_fs(fetched_subtitle := None))
                         (\<lparr>parent = ''/videos'', name = ''Movie.2.srt''\<rparr> \<mapsto> srt_payload),
                       \<lparr>parent = ''/videos'', name = ''Movie.2.srt''\<rparr>))"
    by (simp add: rename_subtitle_def crowded_rename_loop src del: One_nat_def)
  from rename_never_overwrites [OF fin src, of movie_video] obtain new_path where
    "rename_subtitle crowded_fs fetched_subtitle movie_video
       = Some (Returned ((crowded_fs(fetched_subtitle := None))(new_path \<mapsto> srt_payload), new_path))"
    "crowded_fs new_path = None"
    by blast
  with run have "crowded_fs \<lparr>parent = ''/videos'', name = ''Movie.2.srt''\<rparr> = None" by simp
  with fin src run show ?thesis by blast
qed

subsection \<open>Searches (main.py \<open>OpenSubtitlesAPI.search\<close>; src/providers)\<close>

text \<open>
  Python operations on decoded JSON that the searches use. Iterating (\<open>for item in x\<close>)
  works on lists, on dicts (their keys) and on strings (their characters) and raises
  \<open>TypeError\<close> on anything else; \<open>x[0]\<close> raises on an empty or non-indexable value and on
  a dict (no key \<open>0\<close>).
\<close>

fun py_iter :: "json \<Rightarrow> json list io" where
  "py_iter (JArr xs) = Returned xs"
| "py_iter (JObj kvs) = Returned (map (\<lambda>kv. JStr (fst kv)) kvs)"
| "py_iter (JStr s) = Returned (map (\<lambda>c. JStr [c]) s)"
| "py_iter _ = Raised"

fun py_first :: "json \<Rightarrow> json io" where
  "py_first (JArr (x # xs)) = Returned x"
| "py_first (JStr (c # cs)) = Returned (JStr [c])"
| "py_first _ = Raised"

text \<open>
  Library functions that are not part of the repository are parameters: the builtins
  \<open>str\<close> and \<open>float\<close> on a decoded value, and \<open>urllib.parse.urljoin\<close>, which raises
  \<open>ValueError\<close> on a reference it cannot parse.
\<close>

record python =
  py_str :: "json \<Rightarrow> string"
  py_float :: "json \<Rightarrow> pyfloat io"
  urljoin :: "string \<Rightarrow> string \<Rightarrow> string io"

text \<open>
  A loop whose body is wrapped in \<open>try ... except Exception: continue\<close>: an item whose body
  raises is skipped, as is one for which the body executes \<open>continue\<close> (\<open>Returned None\<close>).
\<close>

fun collect_guarded :: "('a \<Rightarrow> 'r option io) \<Rightarrow> 'a list \<Rightarrow> 'r list" where
  "collect_guarded body [] = []"
| "collect_guarded body (item # items) =
     (case body item of
        Returned (Some r) \<Rightarrow> r # collect_guarded body items
      | _ \<Rightarrow> collect_guarded body items)"

text \<open>
  A loop without a guard of its own: the first item whose body raises ends the loop with the
  exception. The results appended so far stay in the list the loop was filling.
\<close>

fun collect_unguarded :: "('a \<Rightarrow> 'r option io) \<Rightarrow> 'a list \<Rightarrow> 'r list \<Rightarrow> 'r list \<times> bool" where
  "collect_unguarded body [] results = (results, False)"
| "collect_unguarded body (item # items) results =
     (case body item of
        Raised \<Rightarrow> (results, True)
      | Returned None \<Rightarrow> collect_unguarded body items results
      | Returned (Some r) \<Rightarrow> collect_unguarded body items (results @ [r]))"

text \<open>\<open>OpenSubtitlesAPI.search\<close> of main.py: the request parameters, then the value of
  \<open>data.get('data', [])\<close> as it is.\<close>

definition search_params ::
  "string option \<Rightarrow> string option \<Rightarrow> string \<Rightarrow> string option \<Rightarrow> int option \<Rightarrow> int option
     \<Rightarrow> (string \<times> json) list" where
  "search_params query file_hash languages imdb_id season episode =
     [(''languages'', JStr languages)]
     @ (case query of Some q \<Rightarrow> if q \<noteq> [] then [(''query'', JStr q)] else [] | None \<Rightarrow> [])
     @ (case file_hash of Some h \<Rightarrow> if h \<noteq> [] then [(''moviehash'', JStr h)] else [] | None \<Rightarrow> [])
     @ (case imdb_id of Some i \<Rightarrow> if i \<noteq> [] then [(''imdb_id'', JStr i)] else [] | None \<Rightarrow> [])
     @ (case season of Some n \<Rightarrow> if n \<noteq> 0 then [(''season_number'', JNum n)] else [] | None \<Rightarrow> [])
     @ (case episode of Some n \<Rightarrow> if n \<noteq> 0 then [(''episode_number'', JNum n)] else [] | None \<Rightarrow> [])"

definition OpenSubtitlesAPI_search ::
  "((string \<times> json) list \<Rightarrow> response io) \<Rightarrow> string option \<Rightarrow> string option \<Rightarrow> string
     \<Rightarrow> string option \<Rightarrow> int option \<Rightarrow> int option \<Rightarrow> json" where
  "OpenSubtitlesAPI_search get_subtitles query file_hash languages imdb_id season episode =
     (case get_subtitles (search_params query file_hash languages imdb_id season episode) of
        Raised \<Rightarrow> JArr []
      | Returned r \<Rightarrow>
          if status_code r = 200 then
            (case json_body r of
               Raised \<Rightarrow> JArr []
             | Returned data \<Rightarrow>
                 (case py_get data ''data'' (JArr []) of Raised \<Rightarrow> JArr [] | Returned v \<Rightarrow> v))
          else JArr [])"

text \<open>\<open>OpenSubtitlesProvider.search\<close>: the body of the per-item \<open>try\<close>, then the method.\<close>

definition sin_titulo :: string where
  "sin_titulo = ''Sin t'' @ [CHR 0xC3, CHR 0xAD] @ ''tulo''"

definition provider_item :: "python \<Rightarrow> json \<Rightarrow> SubtitleResult option io" where
  "provider_item py item =
     (case py_get item ''attributes'' (JObj []) of
        Raised \<Rightarrow> Raised
      | Returned attributes \<Rightarrow>
          (case py_get attributes ''language'' (JStr ''es'') of
             Raised \<Rightarrow> Raised
           | Returned lang_code \<Rightarrow>
               let lang = (if lang_code = JStr ''en'' then ENGLISH else SPANISH_LATAM) in
               (case py_get attributes ''files'' (JArr []) of
                  Raised \<Rightarrow> Raised
                | Returned file_list \<Rightarrow>
                    if \<not> truthy file_list then Returned None
                    else (case py_first file_list of
                       Raised \<Rightarrow> Raised
                     | Returned file_info \<Rightarrow>
                         (case py_get file_info ''file_id'' (JStr '''') of
                            Raised \<Rightarrow> Raised
                          | Returned file_id \<Rightarrow>
                              (case py_float py (case py_get attributes ''ratings'' (JNum 0) of
                                                   Returned v \<Rightarrow> v | Raised \<Rightarrow> JNum 0) of
                                 Raised \<Rightarrow> Raised
                               | Returned r \<Rightarrow>
                                   Returned (Some
                                     \<lparr>title = (case py_get attributes ''release'' (JStr sin_titulo) of
                                                 Returned v \<Rightarrow> v | Raised \<Rightarrow> JNull),
                                      language = lang,
                                      provider = ''OpenSubtitles'',
                                      download_url = JStr (py_str py file_id),
                                      description = (case py_get attributes ''comments'' (JStr '''') of
                                                 Returned v \<Rightarrow> v | Raised \<Rightarrow> JNull),
                                      downloads = (case py_get attributes ''download_count'' (JNum 0) of
                                                 Returned v \<Rightarrow> v | Raised \<Rightarrow> JNull),
                                      rating = r\<rparr>)))))))"

definition lang_param :: "Language option \<Rightarrow> string" where
  "lang_param language_filter =
     (case language_filter of
        None \<Rightarrow> ''es,en''
      | Some l \<Rightarrow> (case l of ENGLISH \<Rightarrow> ''en'' | _ \<Rightarrow> ''es''))"

definition OpenSubtitlesProvider_search ::
  "python \<Rightarrow> string \<Rightarrow> ((string \<times> json) list \<Rightarrow> response io) \<Rightarrow> string \<Rightarrow> Language option
     \<Rightarrow> SubtitleResult list" where
  "OpenSubtitlesProvider_search py api_key get_subtitles query language_filter =
     (if api_key = [] then []
      else take 15
        (case get_subtitles [(''query'', JStr query), (''languages'', JStr (lang_param language_filter))] of
           Raised \<Rightarrow> []
         | Returned r \<Rightarrow>
             if status_code r \<noteq> 200 then []
             else (case json_body r of
                Raised \<Rightarrow> []
              | Returned data \<Rightarrow>
                  (case py_get data ''data'' (JArr []) of
                     Raised \<Rightarrow> []
                   | Returned v \<Rightarrow>
                       (case py_iter v of
                          Raised \<Rightarrow> []
                        | Returned items \<Rightarrow> collect_guarded (provider_item py) items)))))"

text \<open>
  \<open>SubDivXProvider.search\<close>. The rendered page is given by what its three selector
  strategies match: for the first two, each matched element by the outcome of the \<open>try\<close>
  body of \<open>_extract_result\<close> on it; for the third, each link by its text and its
  \<open>href\<close>. \<open>_extract_result\<close> turns an exception into None; the loop over the links has no
  guard.
\<close>

record soup =
  menu_titulo_buscador :: "SubtitleResult option io list"
  titulo_menu_izq :: "SubtitleResult option io list"
  subs_links :: "(string \<times> string) list"

definition link_result :: "python \<Rightarrow> string \<times> string \<Rightarrow> SubtitleResult option io" where
  "link_result py link =
     (if fst link = [] then Returned None
      else case urljoin py ''https://www.subdivx.com'' (snd link) of
        Raised \<Rightarrow> Raised
      | Returned url \<Rightarrow>
          Returned (Some \<lparr>title = JStr (fst link), language = SPANISH_LATAM, provider = ''SubDivX'',
                          download_url = JStr url, description = JStr '''', downloads = JNum 0,
                          rating = FloatOf (JNum 0)\<rparr>))"

definition parse_results :: "python \<Rightarrow> soup \<Rightarrow> SubtitleResult list io" where
  "parse_results py page =
     (let results1 = collect_guarded (\<lambda>e. e) (menu_titulo_buscador page) in
      if results1 \<noteq> [] then Returned results1
      else let results2 = collect_guarded (\<lambda>e. e) (titulo_menu_izq page) in
        if results2 \<noteq> [] then Returned results2
        else (case collect_unguarded (link_result py) (subs_links page) [] of
                (results3, raised) \<Rightarrow> if raised then Raised else Returned results3))"

definition SubDivXProvider_search :: "python \<Rightarrow> bool \<Rightarrow> bool \<Rightarrow> soup io \<Rightarrow> SubtitleResult list" where
  "SubDivXProvider_search py playwright_available browser_starts page =
     (if \<not> playwright_available then []
      else if \<not> browser_starts then []
      else take 15
        (case page of
           Raised \<Rightarrow> []
         | Returned s \<Rightarrow> (case parse_results py s of Raised \<Rightarrow> [] | Returned results \<Rightarrow> results)))"

text \<open>
  \<open>ArgenteamProvider._search_api\<close>, the JSON fallback of that provider's search: the loop
  over \<open>data.get('results', [])\<close> has no guard of its own, and the method's
  \<open>except Exception: pass\<close> returns what was collected before the exception.
\<close>

definition argenteam_item :: "json \<Rightarrow> SubtitleResult option io" where
  "argenteam_item item =
     (case py_get item ''title'' (JStr sin_titulo) of
        Raised \<Rightarrow> Raised
      | Returned t \<Rightarrow>
          (case py_get item ''url'' (JStr '''') of
             Raised \<Rightarrow> Raised
           | Returned u \<Rightarrow>
               (case py_get item ''description'' (JStr '''') of
                  Raised \<Rightarrow> Raised
                | Returned d \<Rightarrow>
                    Returned (Some \<lparr>title = t, language = SPANISH_LATAM, provider = ''Argenteam'',
                                    download_url = u, description = d, downloads = JNum 0,
                                    rating = FloatOf (JNum 0)\<rparr>))))"

definition Argenteam_search_api :: "response io \<Rightarrow> SubtitleResult list" where
  "Argenteam_search_api api_response =
     (case api_response of
        Raised \<Rightarrow> []
      | Returned r \<Rightarrow>
          if status_code r = 200 then
            (case json_body r of
               Raised \<Rightarrow> []
             | Returned data \<Rightarrow>
                 (case py_get data ''results'' (JArr []) of
                    Raised \<Rightarrow> []
                  | Returned v \<Rightarrow>
                      (case py_iter v of
                         Raised \<Rightarrow> []
                       | Returned items \<Rightarrow> fst (collect_unguarded argenteam_item items []))))
          else [])"

text \<open>\<open>ArgenteamProvider.search\<close>, given the results of its guarded loop over the HTML
  page (\<open>Raised\<close> when the page request or the parser raises).\<close>

definition ArgenteamProvider_search :: "SubtitleResult list io \<Rightarrow> response io \<Rightarrow> SubtitleResult list" where
  "ArgenteamProvider_search html_results api_response =
     take 15
       (case html_results of
          Raised \<Rightarrow> []
        | Returned results \<Rightarrow> if results = [] then Argenteam_search_api api_response else results)"

text \<open>Example data: a well-formed API item, a response holding sixteen of them, and the
  Argenteam answers with and without a malformed entry.\<close>

definition good_item :: json where
  "good_item = JObj [(''attributes'', JObj [(''release'', JStr ''Show.S01E02.WEB''),
                       (''language'', JStr ''es''), (''files'', JArr [JObj [(''file_id'', JNum 7001)]])])]"

definition sixteen_items :: "json list" where
  "sixteen_items = replicate 16 good_item"

definition sixteen_response :: "(string \<times> json) list \<Rightarrow> response io" where
  "sixteen_response params =
     Returned \<lparr>status_code = 200, json_body = Returned (JObj [(''data'', JArr sixteen_items)]),
               content = []\<rparr>"

definition argenteam_entry :: json where
  "argenteam_entry = JObj [(''title'', JStr ''Show S01E02''), (''url'', JStr ''/subtitles/1'')]"

definition argenteam_response :: "json list \<Rightarrow> response io" where
  "argenteam_response entries =
     Returned \<lparr>status_code = 200, json_body = Returned (JObj [(''results'', JArr entries)]),
               content = []\<rparr>"

definition argenteam_result :: SubtitleResult where
  "argenteam_result =
     \<lparr>title = JStr ''Show S01E02'', language = SPANISH_LATAM, provider = ''Argenteam'',
      download_url = JStr ''/subtitles/1'', description = JStr '''', downloads = JNum 0,
      rating = FloatOf (JNum 0)\<rparr>"

text \<open>A \<open>urljoin\<close> that rejects a reference with an unclosed bracket in its host part, as
  \<open>urllib\<close> does (\<open>ValueError: Invalid IPv6 URL\<close>).\<close>

definition strict_python :: python where
  "strict_python =
     \<lparr>py_str = (\<lambda>v. case v of JStr s \<Rightarrow> s | _ \<Rightarrow> ''''),
      py_float = (\<lambda>v. case v of JNum n \<Rightarrow> Returned (FloatOf v) | _ \<Rightarrow> Raised),
      urljoin = (\<lambda>base ref. if prefix ''//['' ref then Raised else Returned (base @ ref))\<rparr>"

definition links_page :: soup where
  "links_page =
     \<lparr>menu_titulo_buscador = [], titulo_menu_izq = [],
      subs_links = [(''Show S01E02'', ''/subs/1''), (''Show S01E03'', ''//[/subs/2'')]\<rparr>"

lemma OpenSubtitlesProvider_search_cap:
  "length (OpenSubtitlesProvider_search py k get q l) \<le> 15"
  by (simp add: OpenSubtitlesProvider_search_def)

lemma SubDivXProvider_search_cap:
  "length (SubDivXProvider_search py a b page) \<le> 15"
  by (simp add: SubDivXProvider_search_def)

lemma ArgenteamProvider_search_cap:
  "length (ArgenteamProvider_search html api) \<le> 15"
  by (simp add: ArgenteamProvider_search_def)

lemma collect_guarded_append:
  "collect_guarded body (xs @ ys) = collect_guarded body xs @ collect_guarded body ys"
  by (induction xs) (simp_all split: io.splits option.splits)

lemma collect_guarded_skips:
  "body bad = Raised \<Longrightarrow>
     collect_guarded body (xs @ bad # ys) = collect_guarded body (xs @ ys)"
  by (simp add: collect_guarded_append)

lemma OpenSubtitlesProvider_search_failures:
  "OpenSubtitlesProvider_search py [] get q l = []"
  "get [(''query'', JStr q), (''languages'', JStr (lang_param l))] = Raised \<Longrightarrow>
     OpenSubtitlesProvider_search py k get q l = []"
  "get [(''query'', JStr q), (''languages'', JStr (lang_param l))] = Returned r \<Longrightarrow>
     status_code r \<noteq> 200 \<Longrightarrow> OpenSubtitlesProvider_search py k get q l = []"
  "get [(''query'', JStr q), (''languages'', JStr (lang_param l))] = Returned r \<Longrightarrow>
     json_body r = Raised \<Longrightarrow> OpenSubtitlesProvider_search py k get q l = []"
  by (simp_all add: OpenSubtitlesProvider_search_def)

lemma SubDivXProvider_search_failures:
  "SubDivXProvider_search py False b page = []"
  "SubDivXProvider_search py a False page = []"
  "SubDivXProvider_search py a b Raised = []"
  by (simp_all add: SubDivXProvider_search_def)

lemma sixteen_items_length: "length sixteen_items = 16"
  by (simp add: sixteen_items_def)

lemma OpenSubtitlesProvider_search_items:
  "k \<noteq> [] \<Longrightarrow>
   get [(''query'', JStr q), (''languages'', JStr (lang_param l))] = Returned r \<Longrightarrow>
   status_code r = 200 \<Longrightarrow> json_body r = Returned (JObj [(''data'', JArr items)]) \<Longrightarrow>
     OpenSubtitlesProvider_search py k get q l = take 15 (collect_guarded (provider_item py) items)"
  by (simp add: OpenSubtitlesProvider_search_def)

text \<open>
  C5. The provider classes cut their result list to 15 entries (the three lemmas on
  \<open>take 15\<close> above), but \<open>OpenSubtitlesAPI.search\<close>, the search the orchestrator calls,
  returns \<open>data.get('data', [])\<close> as it is: for a response that carries sixteen items it
  returns all sixteen.
\<close>

theorem api_search_uncapped:
  "OpenSubtitlesAPI_search sixteen_response (Some ''Show S01E02'') None ''es'' None (Some 1) (Some 2)
     = JArr sixteen_items \<and>
   length sixteen_items = 16"
  by (simp add: OpenSubtitlesAPI_search_def sixteen_response_def sixteen_items_length)

lemma argenteam_item_values:
  "argenteam_item JNull = Raised" "argenteam_item argenteam_entry = Returned (Some argenteam_result)"
  by (simp_all add: argenteam_item_def argenteam_entry_def argenteam_result_def)

lemma subdivx_link_values:
  "link_result strict_python (''Show S01E03'', ''//[/subs/2'') = Raised"
  "link_result strict_python (''Show S01E02'', ''/subs/1'')
     = Returned (Some \<lparr>title = JStr ''Show S01E02'', language = SPANISH_LATAM, provider = ''SubDivX'',
                       download_url = JStr ''https://www.subdivx.com/subs/1'', description = JStr '''',
                       downloads = JNum 0, rating = FloatOf (JNum 0)\<rparr>)"
  by (simp_all add: link_result_def strict_python_def)

lemma subdivx_malformed_link_aborts:
  "SubDivXProvider_search strict_python True True (Returned links_page) = [] \<and>
   length (SubDivXProvider_search strict_python True True
             (Returned (links_page\<lparr>subs_links := [(''Show S01E02'', ''/subs/1'')]\<rparr>))) = 1"
  by (simp add: SubDivXProvider_search_def parse_results_def links_page_def subdivx_link_values)

text \<open>
  C6. No search raises: each one returns a list, the empty one when the key or the browser
  engine is missing, when the request raises, when the status is not 200 and when the body
  does not decode (lemmas above), and a loop whose body has its own \<open>try\<close> skips an item
  that raises. Two loops have no such guard. In \<open>ArgenteamProvider._search_api\<close> a
  malformed entry of the \<open>results\<close> list ends the loop: with a \<open>null\<close> entry in front of a
  well-formed one the search returns nothing, and without the \<open>null\<close> entry it returns the
  well-formed one. The third selector strategy of \<open>SubDivXProvider._parse_results\<close> behaves
  the same way (\<open>subdivx_malformed_link_aborts\<close>).
\<close>

theorem argenteam_malformed_item_aborts:
  "ArgenteamProvider_search (Returned []) (argenteam_response [JNull, argenteam_entry]) = [] \<and>
   ArgenteamProvider_search (Returned []) (argenteam_response [argenteam_entry]) = [argenteam_result]"
  by (simp add: ArgenteamProvider_search_def Argenteam_search_api_def argenteam_response_def
      argenteam_item_values)

end
